theory Spec2Isabelle
  imports Main
begin

section \<open>Go integers and their decimal text\<close>

text \<open>
  Go's \<^verbatim>\<open>int\<close> and \<^verbatim>\<open>int64\<close> are 64-bit two's complement on the platforms the store
  runs on. Values are carried as \<^typ>\<open>int\<close>; where the source does arithmetic on them
  (\<^verbatim>\<open>seqNum++\<close>, the cache increment) the wrap-around is written out with \<open>wrap64\<close>.
\<close>

definition int_max :: int where
  "int_max = 9223372036854775807"

definition int_min :: int where
  "int_min = - 9223372036854775808"

definition wrap64 :: "int \<Rightarrow> int" where
  "wrap64 x = (x + 9223372036854775808) mod 18446744073709551616 - 9223372036854775808"

definition newline :: char where
  "newline = CHR 0x0A"

definition digit_char :: "nat \<Rightarrow> char" where
  "digit_char d = ''0123456789'' ! d"

definition is_digit :: "char \<Rightarrow> bool" where
  "is_digit c = (c \<in> set ''0123456789'')"

text \<open>The value of a digit is its place among the ten digits.\<close>

definition digit_val :: "char \<Rightarrow> nat" where
  "digit_val c = length (takeWhile (\<lambda>d. d \<noteq> c) ''0123456789'')"

text \<open>The decimal digits of a natural number, most significant first (no leading zero).\<close>

fun nat_digits :: "nat \<Rightarrow> string" where
  "nat_digits n =
     (if n < 10 then [digit_char n] else nat_digits (n div 10) @ [digit_char (n mod 10)])"

declare nat_digits.simps [simp del]

definition digits_val :: "string \<Rightarrow> nat" where
  "digits_val s = foldl (\<lambda>a c. 10 * a + digit_val c) 0 s"

text \<open>\<^verbatim>\<open>%d\<close> of package fmt: an optional minus sign and the digits.\<close>

definition fmt_d :: "int \<Rightarrow> string" where
  "fmt_d n = (if n < 0 then CHR ''-'' # nat_digits (nat (- n)) else nat_digits (nat n))"

definition zero_pad :: "nat \<Rightarrow> string \<Rightarrow> string" where
  "zero_pad wid s = replicate (wid - length s) (CHR ''0'') @ s"

text \<open>
  \<^verbatim>\<open>%019d\<close> of package fmt: the sign counts towards the width of 19, zeros are inserted
  after the sign, and a number too wide for the field is printed in full.
\<close>

definition fmt_019d :: "int \<Rightarrow> string" where
  "fmt_019d n =
     (if n < 0 then CHR ''-'' # zero_pad 18 (nat_digits (nat (- n)))
      else zero_pad 19 (nat_digits (nat n)))"

text \<open>
  \<^verbatim>\<open>strconv.ParseInt(s, 10, 64)\<close>: an optional sign, at least one digit, nothing else, and
  a value that fits 64 bits. \<^verbatim>\<open>strconv.Atoi\<close> is the same parse into an \<^verbatim>\<open>int\<close>.
\<close>

definition ParseInt :: "string \<Rightarrow> int option" where
  "ParseInt s =
     (case s of
        [] \<Rightarrow> None
      | c # cs \<Rightarrow>
          let neg = (c = CHR ''-'');
              ds = (if c = CHR ''-'' \<or> c = CHR ''+'' then cs else s)
          in if ds = [] \<or> \<not> list_all is_digit ds then None
             else let v = (if neg then - int (digits_val ds) else int (digits_val ds))
                  in if int_min \<le> v \<and> v \<le> int_max then Some v else None)"

definition Atoi :: "string \<Rightarrow> int option" where
  "Atoi s = ParseInt s"

section \<open>Scanning one header line: \<^verbatim>\<open>fmt.Fscanf(f, "%d,%d,%d\n", ...)\<close>\<close>

text \<open>
  The scanner of package fmt, for this one format, on ASCII input. Before a \<^verbatim>\<open>%d\<close> it
  skips blanks and fails on a newline or at the end of the input; it then takes an optional
  sign and the longest run of digits and underscores, which \<open>ParseInt\<close> must accept. A comma
  in the format matches exactly a comma. The newline that ends the format matches blanks
  followed by a newline or by the end of the input.
\<close>

definition isSpace :: "char \<Rightarrow> bool" where
  "isSpace c = (c \<in> set [CHR '' '', CHR 0x09, CHR 0x0A, CHR 0x0B, CHR 0x0C, CHR 0x0D])"

definition is_blank :: "char \<Rightarrow> bool" where
  "is_blank c = (isSpace c \<and> c \<noteq> newline)"

definition is_digit_or_underscore :: "char \<Rightarrow> bool" where
  "is_digit_or_underscore c = (is_digit c \<or> c = CHR ''_'')"

definition scanInt :: "string \<Rightarrow> (int \<times> string) option" where
  "scanInt inp =
     (case dropWhile is_blank inp of
        [] \<Rightarrow> None
      | c # cs \<Rightarrow>
          if c = newline then None
          else let signed = (c = CHR ''+'' \<or> c = CHR ''-'');
                   body = (if signed then cs else c # cs);
                   tok = takeWhile is_digit_or_underscore body;
                   rest = dropWhile is_digit_or_underscore body
               in if tok = [] then None
                  else (case ParseInt (if signed then c # tok else tok) of
                          None \<Rightarrow> None
                        | Some v \<Rightarrow> Some (v, rest)))"

definition expect :: "char \<Rightarrow> string \<Rightarrow> string option" where
  "expect c inp = (case inp of [] \<Rightarrow> None | d # ds \<Rightarrow> if d = c then Some ds else None)"

definition matchNewline :: "string \<Rightarrow> string option" where
  "matchNewline inp =
     (case dropWhile is_blank inp of
        [] \<Rightarrow> Some []
      | c # cs \<Rightarrow> if c = newline then Some cs else None)"

text \<open>
  One call of \<^verbatim>\<open>Fscanf\<close> on the unread part of the header file: the three numbers and
  what is left to read, or \<open>None\<close> when the call returns an error (then fewer than three
  fields count as scanned).
\<close>

definition Fscanf_header :: "string \<Rightarrow> (int \<times> int \<times> int \<times> string) option" where
  "Fscanf_header inp =
     (case scanInt inp of
        None \<Rightarrow> None
      | Some (seqNum, r1) \<Rightarrow>
          (case expect (CHR '','') r1 of
             None \<Rightarrow> None
           | Some r2 \<Rightarrow>
               (case scanInt r2 of
                  None \<Rightarrow> None
                | Some (off, r3) \<Rightarrow>
                    (case expect (CHR '','') r3 of
                       None \<Rightarrow> None
                     | Some r4 \<Rightarrow>
                         (case scanInt r4 of
                            None \<Rightarrow> None
                          | Some (sz, r5) \<Rightarrow>
                              (case matchNewline r5 of
                                 None \<Rightarrow> None
                               | Some r6 \<Rightarrow> Some (seqNum, off, sz, r6)))))))"

text \<open>\<^verbatim>\<open>fmt.Fprintf(f, "%d,%d,%d\n", seqNum, offset, len(msg))\<close>: the text of a header line.\<close>

definition header_line :: "int \<Rightarrow> int \<Rightarrow> int \<Rightarrow> string" where
  "header_line seqNum off sz =
     fmt_d seqNum @ '','' @ fmt_d off @ '','' @ fmt_d sz @ [newline]"

section \<open>The operating system: files, handles, failures, the clock\<close>

type_synonym fname = string

type_synonym time = nat

text \<open>
  A file holds its current bytes and the bytes that have reached stable storage (what the
  last successful \<^verbatim>\<open>Sync\<close> wrote out).
\<close>

record osfile =
  fdata :: string
  fstable :: string

text \<open>
  The world outside the store: the files by path name, the outcome of the system calls to
  come (\<open>True\<close>: the call fails with an I/O error; once the list is used up every call
  succeeds), and the clock, read by \<^verbatim>\<open>time.Now()\<close>, whose \<open>tick\<close>-th reading is
  \<open>clock tick\<close>. Every call of package os, and every \<^verbatim>\<open>Fscanf\<close> and \<^verbatim>\<open>ReadFile\<close>, takes
  one outcome from the list. Directories are not modelled: a path names a file or nothing.
  A file that is removed is gone for the files still open on it too (their calls fail).
\<close>

record world =
  files :: "fname \<rightharpoonup> osfile"
  faults :: "bool list"
  clock :: "nat \<Rightarrow> time"
  tick :: nat

datatype oserror = ErrInvalid | ErrClosed | ErrNotExist | ErrIO | ErrNegativeOffset | ErrEOF

text \<open>
  The errors the store returns: an error of package os passed on as it is, or one of the
  messages the source builds with \<^verbatim>\<open>fmt.Errorf\<close>, with the file name and the cause. A
  run-time panic (\<^verbatim>\<open>make\<close> with a negative length) is carried as \<open>Panic\<close>.
\<close>

datatype error =
    OsError oserror
  | ErrSettingNotFound string string
  | ErrOpenOrCreate fname oserror
  | ErrRewind fname oserror
  | ErrMarshal fname
  | ErrWrite fname oserror
  | ErrFlush fname oserror
  | ErrSeekEnd fname oserror
  | ErrRead fname oserror
  | Panic

text \<open>An open file, Go's \<^verbatim>\<open>*os.File\<close>; a nil pointer is \<open>None\<close>.\<close>

record osFile =
  hname :: fname
  hpos :: nat
  hclosed :: bool

datatype whence = SEEK_SET | SEEK_END

definition syscall :: "world \<Rightarrow> bool \<times> world" where
  "syscall w = (case faults w of [] \<Rightarrow> (False, w) | b # bs \<Rightarrow> (b, w\<lparr>faults := bs\<rparr>))"

definition time_Now :: "world \<Rightarrow> time \<times> world" where
  "time_Now w = (clock w (tick w), w\<lparr>tick := Suc (tick w)\<rparr>)"

definition IsNotExist :: "oserror \<Rightarrow> bool" where
  "IsNotExist e = (e = ErrNotExist)"

definition os_MkdirAll :: "fname \<Rightarrow> world \<Rightarrow> oserror option \<times> world" where
  "os_MkdirAll dirname w =
     (case syscall w of (failed, w') \<Rightarrow> (if failed then Some ErrIO else None, w'))"

definition os_Remove :: "fname \<Rightarrow> world \<Rightarrow> oserror option \<times> world" where
  "os_Remove fname w =
     (case syscall w of (failed, w') \<Rightarrow>
        if failed then (Some ErrIO, w')
        else (case files w' fname of
                None \<Rightarrow> (Some ErrNotExist, w')
              | Some f \<Rightarrow> (None, w'\<lparr>files := (files w')(fname := None)\<rparr>)))"

definition os_OpenFile :: "fname \<Rightarrow> bool \<Rightarrow> world \<Rightarrow> (oserror + osFile) \<times> world" where
  "os_OpenFile fname create w =
     (case syscall w of (failed, w') \<Rightarrow>
        if failed then (Inl ErrIO, w')
        else (case files w' fname of
                Some f \<Rightarrow> (Inr \<lparr>hname = fname, hpos = 0, hclosed = False\<rparr>, w')
              | None \<Rightarrow>
                  if create
                  then (Inr \<lparr>hname = fname, hpos = 0, hclosed = False\<rparr>,
                        w'\<lparr>files := (files w')(fname \<mapsto> \<lparr>fdata = [], fstable = []\<rparr>)\<rparr>)
                  else (Inl ErrNotExist, w')))"

definition ioutil_ReadFile :: "fname \<Rightarrow> world \<Rightarrow> (oserror + string) \<times> world" where
  "ioutil_ReadFile fname w =
     (case syscall w of (failed, w') \<Rightarrow>
        if failed then (Inl ErrIO, w')
        else (case files w' fname of
                None \<Rightarrow> (Inl ErrNotExist, w')
              | Some f \<Rightarrow> (Inr (fdata f), w')))"

definition checkValid :: "osFile option \<Rightarrow> oserror + osFile" where
  "checkValid f =
     (case f of
        None \<Rightarrow> Inl ErrInvalid
      | Some h \<Rightarrow> if hclosed h then Inl ErrClosed else Inr h)"

text \<open>\<^verbatim>\<open>f.Seek(0, whence)\<close>: the new offset and the handle at that offset.\<close>

definition file_Seek :: "osFile option \<Rightarrow> whence \<Rightarrow> world \<Rightarrow> (oserror + int \<times> osFile) \<times> world" where
  "file_Seek f wh w =
     (case checkValid f of
        Inl e \<Rightarrow> (Inl e, w)
      | Inr h \<Rightarrow>
          (case syscall w of (failed, w') \<Rightarrow>
             if failed then (Inl ErrIO, w')
             else (case files w' (hname h) of
                     None \<Rightarrow> (Inl ErrIO, w')
                   | Some fl \<Rightarrow>
                       let p = (case wh of SEEK_SET \<Rightarrow> 0 | SEEK_END \<Rightarrow> length (fdata fl))
                       in (Inr (int p, h\<lparr>hpos := p\<rparr>), w'))))"

text \<open>
  Writing at an offset replaces the bytes there and extends the file as needed (a gap
  before the offset is filled with zero bytes).
\<close>

definition write_at :: "nat \<Rightarrow> string \<Rightarrow> string \<Rightarrow> string" where
  "write_at p b d =
     take p d @ replicate (p - length d) (CHR 0x00) @ b @ drop (p + length b) d"

text \<open>\<^verbatim>\<open>f.Write(b)\<close>, at the handle's offset. A write that fails writes nothing.\<close>

definition file_Write :: "osFile option \<Rightarrow> string \<Rightarrow> world \<Rightarrow> (oserror + osFile) \<times> world" where
  "file_Write f b w =
     (case checkValid f of
        Inl e \<Rightarrow> (Inl e, w)
      | Inr h \<Rightarrow>
          (case syscall w of (failed, w') \<Rightarrow>
             if failed then (Inl ErrIO, w')
             else (case files w' (hname h) of
                     None \<Rightarrow> (Inl ErrIO, w')
                   | Some fl \<Rightarrow>
                       (Inr (h\<lparr>hpos := hpos h + length b\<rparr>),
                        w'\<lparr>files := (files w')(hname h \<mapsto> fl\<lparr>fdata := write_at (hpos h) b (fdata fl)\<rparr>)\<rparr>))))"

definition file_Sync :: "osFile option \<Rightarrow> world \<Rightarrow> oserror option \<times> world" where
  "file_Sync f w =
     (case checkValid f of
        Inl e \<Rightarrow> (Some e, w)
      | Inr h \<Rightarrow>
          (case syscall w of (failed, w') \<Rightarrow>
             if failed then (Some ErrIO, w')
             else (case files w' (hname h) of
                     None \<Rightarrow> (Some ErrIO, w')
                   | Some fl \<Rightarrow>
                       (None, w'\<lparr>files := (files w')(hname h \<mapsto> fl\<lparr>fstable := fdata fl\<rparr>)\<rparr>))))"

text \<open>
  \<^verbatim>\<open>f.ReadAt(b, off)\<close> with \<open>len(b) = n\<close>: a negative offset is refused, an empty buffer
  is filled without a system call, and fewer than \<open>n\<close> bytes at \<open>off\<close> is \<^verbatim>\<open>io.EOF\<close>.
\<close>

definition file_ReadAt :: "osFile option \<Rightarrow> nat \<Rightarrow> int \<Rightarrow> world \<Rightarrow> (oserror + string) \<times> world" where
  "file_ReadAt f n off w =
     (case checkValid f of
        Inl e \<Rightarrow> (Inl e, w)
      | Inr h \<Rightarrow>
          if off < 0 then (Inl ErrNegativeOffset, w)
          else if n = 0 then (Inr [], w)
          else (case syscall w of (failed, w') \<Rightarrow>
                  if failed then (Inl ErrIO, w')
                  else (case files w' (hname h) of
                          None \<Rightarrow> (Inl ErrIO, w')
                        | Some fl \<Rightarrow>
                            if nat off + n \<le> length (fdata fl)
                            then (Inr (take n (drop (nat off) (fdata fl))), w')
                            else (Inl ErrEOF, w'))))"

text \<open>
  \<^verbatim>\<open>f.Close()\<close> on a non-nil file: a second close is refused; a close that fails still
  leaves the file closed.
\<close>

definition file_Close :: "osFile \<Rightarrow> world \<Rightarrow> oserror option \<times> osFile \<times> world" where
  "file_Close h w =
     (if hclosed h then (Some ErrClosed, h, w)
      else (case syscall w of (failed, w') \<Rightarrow>
              (if failed then Some ErrIO else None, h\<lparr>hclosed := True\<rparr>, w')))"

text \<open>
  \<^verbatim>\<open>time.Time.MarshalText\<close> and \<^verbatim>\<open>UnmarshalText\<close>. An instant is a natural number (its
  nanoseconds), and its text is the decimal numeral, which stands for the RFC 3339 text of
  package time: decoding fails on anything that is not the encoding of an instant.
\<close>

definition MarshalText :: "time \<Rightarrow> string option" where
  "MarshalText t = Some (nat_digits t)"

definition UnmarshalText :: "string \<Rightarrow> time option" where
  "UnmarshalText s =
     (if s \<noteq> [] \<and> list_all is_digit s \<and> nat_digits (digits_val s) = s
      then Some (digits_val s) else None)"

section \<open>The sequence cache\<close>

text \<open>
  Modelled from the spec: the type \<^verbatim>\<open>memoryStore\<close> and its methods, which the file store
  calls and whose source file is not among the sources. Section 4.1 of the specification:
  an in-memory record of the creation time, the next sender and the next target sequence
  number; the readers are pure, \<^verbatim>\<open>set\<close> is an unconditional overwrite, \<^verbatim>\<open>incr\<close> is
  \<open>n \<leftarrow> n + 1\<close> (on a Go \<^verbatim>\<open>int\<close>), and \<^verbatim>\<open>reset\<close> sets the creation time to now and both
  counters to 1. There is no I/O and there are no failure modes, so the error results the
  methods have in Go are always nil and are left out. The value \<^verbatim>\<open>&memoryStore{}\<close> is Go's
  zero value.
\<close>

record memoryStore =
  nextSenderSeqNum :: int
  nextTargetSeqNum :: int
  creationTime :: time

definition memoryStore_zero :: memoryStore where
  "memoryStore_zero = \<lparr>nextSenderSeqNum = 0, nextTargetSeqNum = 0, creationTime = 0\<rparr>"

definition cache_NextSenderMsgSeqNum :: "memoryStore \<Rightarrow> int" where
  "cache_NextSenderMsgSeqNum c = nextSenderSeqNum c"

definition cache_NextTargetMsgSeqNum :: "memoryStore \<Rightarrow> int" where
  "cache_NextTargetMsgSeqNum c = nextTargetSeqNum c"

definition cache_SetNextSenderMsgSeqNum :: "int \<Rightarrow> memoryStore \<Rightarrow> memoryStore" where
  "cache_SetNextSenderMsgSeqNum n c = c\<lparr>nextSenderSeqNum := n\<rparr>"

definition cache_SetNextTargetMsgSeqNum :: "int \<Rightarrow> memoryStore \<Rightarrow> memoryStore" where
  "cache_SetNextTargetMsgSeqNum n c = c\<lparr>nextTargetSeqNum := n\<rparr>"

definition cache_IncrNextSenderMsgSeqNum :: "memoryStore \<Rightarrow> memoryStore" where
  "cache_IncrNextSenderMsgSeqNum c = c\<lparr>nextSenderSeqNum := wrap64 (nextSenderSeqNum c + 1)\<rparr>"

definition cache_IncrNextTargetMsgSeqNum :: "memoryStore \<Rightarrow> memoryStore" where
  "cache_IncrNextTargetMsgSeqNum c = c\<lparr>nextTargetSeqNum := wrap64 (nextTargetSeqNum c + 1)\<rparr>"

definition cache_CreationTime :: "memoryStore \<Rightarrow> time" where
  "cache_CreationTime c = creationTime c"

definition cache_Reset :: "memoryStore \<Rightarrow> world \<Rightarrow> memoryStore \<times> world" where
  "cache_Reset c w =
     (case time_Now w of (now, w') \<Rightarrow>
        (c\<lparr>nextSenderSeqNum := 1, nextTargetSeqNum := 1, creationTime := now\<rparr>, w'))"

section \<open>The file store\<close>

record msgDef =
  offset :: int
  size' :: int

record fileStore =
  sessionID :: string
  cache :: memoryStore
  offsets :: "int \<rightharpoonup> msgDef"
  bodyFname :: fname
  headerFname :: fname
  sessionFname :: fname
  senderSeqNumsFname :: fname
  targetSeqNumsFname :: fname
  bodyFile :: "osFile option"
  headerFile :: "osFile option"
  sessionFile :: "osFile option"
  senderSeqNumsFile :: "osFile option"
  targetSeqNumsFile :: "osFile option"

text \<open>
  A method of the store runs on the store and the world and returns both; \<open>and_then\<close> is
  the source's \<^verbatim>\<open>if err := step(); err != nil { return err }\<close>.
\<close>

type_synonym state = "fileStore \<times> world"

definition and_then :: "error option \<times> state \<Rightarrow> (state \<Rightarrow> error option \<times> state) \<Rightarrow> error option \<times> state" where
  "and_then r k = (case r of (Some e, s) \<Rightarrow> (Some e, s) | (None, s) \<Rightarrow> k s)"

definition FileStorePath :: string where
  "FileStorePath = ''FileStorePath''"

definition removeFile :: "fname \<Rightarrow> world \<Rightarrow> error option \<times> world" where
  "removeFile fname w =
     (case os_Remove fname w of
        (Some e, w') \<Rightarrow> (if \<not> IsNotExist e then Some (OsError e) else None, w')
      | (None, w') \<Rightarrow> (None, w'))"

definition openOrCreateFile :: "fname \<Rightarrow> world \<Rightarrow> (error + osFile) \<times> world" where
  "openOrCreateFile fname w =
     (case os_OpenFile fname False w of
        (Inr f, w1) \<Rightarrow> (Inr f, w1)
      | (Inl e1, w1) \<Rightarrow>
          (case os_OpenFile fname True w1 of
             (Inr f, w2) \<Rightarrow> (Inr f, w2)
           | (Inl e2, w2) \<Rightarrow> (Inl (ErrOpenOrCreate fname e2), w2)))"

definition closeFile :: "osFile option \<Rightarrow> world \<Rightarrow> error option \<times> osFile option \<times> world" where
  "closeFile f w =
     (case f of
        None \<Rightarrow> (None, None, w)
      | Some h \<Rightarrow>
          (case file_Close h w of
             (Some e, h', w') \<Rightarrow> (if \<not> IsNotExist e then Some (OsError e) else None, Some h', w')
           | (None, h', w') \<Rightarrow> (None, Some h', w')))"

definition closeBody :: "state \<Rightarrow> error option \<times> state" where
  "closeBody s = (case s of (store, w) \<Rightarrow>
     (case closeFile (bodyFile store) w of (err, f, w') \<Rightarrow> (err, store\<lparr>bodyFile := f\<rparr>, w')))"

definition closeHeader :: "state \<Rightarrow> error option \<times> state" where
  "closeHeader s = (case s of (store, w) \<Rightarrow>
     (case closeFile (headerFile store) w of (err, f, w') \<Rightarrow> (err, store\<lparr>headerFile := f\<rparr>, w')))"

definition closeSession :: "state \<Rightarrow> error option \<times> state" where
  "closeSession s = (case s of (store, w) \<Rightarrow>
     (case closeFile (sessionFile store) w of (err, f, w') \<Rightarrow> (err, store\<lparr>sessionFile := f\<rparr>, w')))"

definition closeSenderSeqNums :: "state \<Rightarrow> error option \<times> state" where
  "closeSenderSeqNums s = (case s of (store, w) \<Rightarrow>
     (case closeFile (senderSeqNumsFile store) w of
        (err, f, w') \<Rightarrow> (err, store\<lparr>senderSeqNumsFile := f\<rparr>, w')))"

definition closeTargetSeqNums :: "state \<Rightarrow> error option \<times> state" where
  "closeTargetSeqNums s = (case s of (store, w) \<Rightarrow>
     (case closeFile (targetSeqNumsFile store) w of
        (err, f, w') \<Rightarrow> (err, store\<lparr>targetSeqNumsFile := f\<rparr>, w')))"

text \<open>
  \<^verbatim>\<open>Close\<close>: the five files in the source's order, returning at the first failure, and
  only after the last one the five fields are set to nil.
\<close>

definition Close :: "state \<Rightarrow> error option \<times> state" where
  "Close s =
     and_then (closeBody s) (\<lambda>s.
     and_then (closeHeader s) (\<lambda>s.
     and_then (closeSession s) (\<lambda>s.
     and_then (closeSenderSeqNums s) (\<lambda>s.
     and_then (closeTargetSeqNums s) (\<lambda>s.
       (case s of (store, w) \<Rightarrow>
          (None, store\<lparr>bodyFile := None, headerFile := None, sessionFile := None,
                       senderSeqNumsFile := None, targetSeqNumsFile := None\<rparr>, w)))))))"

text \<open>
  The loop of \<^verbatim>\<open>populateCache\<close> over the open header file: each \<^verbatim>\<open>Fscanf\<close> reads on from
  where the last one stopped; a read that fails, or input that does not scan, ends the
  loop; a scanned line is stored in the index under its sequence number.
\<close>

function populateCache_loop :: "string \<Rightarrow> (int \<rightharpoonup> msgDef) \<Rightarrow> world \<Rightarrow> (int \<rightharpoonup> msgDef) \<times> world" where
  "populateCache_loop inp offs w =
     (case syscall w of (failed, w') \<Rightarrow>
        if failed then (offs, w')
        else (case Fscanf_header inp of
                None \<Rightarrow> (offs, w')
              | Some (seqNum, off, sz, rest) \<Rightarrow>
                  populateCache_loop rest (offs(seqNum \<mapsto> \<lparr>offset = off, size' = sz\<rparr>)) w'))"
  by pat_completeness auto
termination
proof (relation "measure (\<lambda>(inp, offs, w). length inp)")
  show "wf (measure (\<lambda>(inp, offs, w). length inp))"
    by simp
next
  fix inp :: string and offs :: "int \<rightharpoonup> msgDef" and w :: world
    and x :: "bool \<times> world" and failed :: bool and w' :: world
    and x2 :: "int \<times> int \<times> int \<times> string" and seqNum :: int and y :: "int \<times> int \<times> string"
    and off :: int and ya :: "int \<times> string" and sz :: int and rest :: string
  assume scanned: "Fscanf_header inp = Some x2" "(seqNum, y) = x2" "(off, ya) = y" "(sz, rest) = ya"
  have int_shorter: "length r < length i" if "scanInt i = Some (v, r)" for i v r
  proof -
    have "dropWhile is_blank i \<noteq> []"
    proof
      assume "dropWhile is_blank i = []"
      then have "scanInt i = None"
        unfolding scanInt_def by (simp only: list.case)
      with that show False
        by simp
    qed
    then obtain c cs where dw: "dropWhile is_blank i = c # cs"
      by (cases "dropWhile is_blank i") simp_all
    define body where "body = (if c = CHR ''+'' \<or> c = CHR ''-'' then cs else c # cs)"
    have tok: "takeWhile is_digit_or_underscore body \<noteq> []"
      and r: "r = dropWhile is_digit_or_underscore body"
      using that dw unfolding scanInt_def body_def
      by (auto simp add: Let_def split: if_splits option.splits)
    have "length (takeWhile is_digit_or_underscore body) + length r = length body"
      unfolding r by (metis length_append takeWhile_dropWhile_id)
    with tok have "length r < length body"
      by (cases "takeWhile is_digit_or_underscore body") simp_all
    also have "length body \<le> length (c # cs)"
      by (simp add: body_def)
    also have "\<dots> \<le> length i"
      unfolding dw [symmetric] by (rule length_dropWhile_le)
    finally show ?thesis .
  qed
  have comma_shorter: "length r < length i" if "expect c i = Some r" for c i r
    using that by (cases i) (simp_all add: expect_def split: if_splits)
  have newline_shorter: "length r \<le> length i" if "matchNewline i = Some r" for i r
  proof (cases "dropWhile is_blank i")
    case Nil
    with that show ?thesis by (simp add: matchNewline_def)
  next
    case (Cons c cs)
    with that have "r = cs"
      by (simp add: matchNewline_def split: if_splits)
    then have "length r \<le> length (dropWhile is_blank i)"
      using Cons by simp
    also have "\<dots> \<le> length i"
      by (rule length_dropWhile_le)
    finally show ?thesis .
  qed
  from scanned have "Fscanf_header inp = Some (seqNum, off, sz, rest)"
    by auto
  then obtain r1 r2 r3 r4 r5 where
    "scanInt inp = Some (seqNum, r1)" "expect (CHR '','') r1 = Some r2"
    "scanInt r2 = Some (off, r3)" "expect (CHR '','') r3 = Some r4"
    "scanInt r4 = Some (sz, r5)" "matchNewline r5 = Some rest"
    unfolding Fscanf_header_def by (auto split: option.splits)
  then have "length rest < length inp"
    using int_shorter [of inp seqNum r1] comma_shorter [of "CHR '',''" r1 r2]
      int_shorter [of r2 off r3] comma_shorter [of "CHR '',''" r3 r4]
      int_shorter [of r4 sz r5] newline_shorter [of r5 rest]
    by linarith
  then show "((rest, offs(seqNum \<mapsto> \<lparr>offset = off, size' = sz\<rparr>), w'), inp, offs, w)
      \<in> measure (\<lambda>(inp, offs, w). length inp)"
    by simp
qed

declare populateCache_loop.simps [simp del]

definition contents :: "world \<Rightarrow> fname \<Rightarrow> string" where
  "contents w fname = (case files w fname of None \<Rightarrow> [] | Some f \<Rightarrow> fdata f)"

text \<open>
  \<^verbatim>\<open>populateCache\<close>: the index from the header file, the creation time from the session
  file, the two counters from their files. A file that cannot be opened or read, and text
  that does not parse, leave what they would have set as it is. The deferred close of the
  header file runs when the function returns. The result is
  \<open>(creationTimePopulated, err)\<close>, and \<open>err\<close> is always nil.
\<close>

definition populateCache :: "state \<Rightarrow> (bool \<times> error option) \<times> state" where
  "populateCache s = (case s of (store, w) \<Rightarrow>
     (case os_OpenFile (headerFname store) False w of (tmpHeaderFile, w1) \<Rightarrow>
     (case (case tmpHeaderFile of
              Inl e \<Rightarrow> (offsets store, w1)
            | Inr f \<Rightarrow> populateCache_loop (contents w1 (headerFname store)) (offsets store) w1)
      of (offs, w2) \<Rightarrow>
     (case ioutil_ReadFile (sessionFname store) w2 of (timeBytes, w3) \<Rightarrow>
     (case ioutil_ReadFile (senderSeqNumsFname store) w3 of (senderSeqNumBytes, w4) \<Rightarrow>
     (case ioutil_ReadFile (targetSeqNumsFname store) w4 of (targetSeqNumBytes, w5) \<Rightarrow>
        let ctime = (case timeBytes of Inl e \<Rightarrow> None | Inr b \<Rightarrow> UnmarshalText b);
            c1 = (case ctime of None \<Rightarrow> cache store | Some t \<Rightarrow> (cache store)\<lparr>creationTime := t\<rparr>);
            c2 = (case senderSeqNumBytes of
                    Inl e \<Rightarrow> c1
                  | Inr b \<Rightarrow> (case Atoi b of
                               None \<Rightarrow> c1
                             | Some senderSeqNum \<Rightarrow> cache_SetNextSenderMsgSeqNum senderSeqNum c1));
            c3 = (case targetSeqNumBytes of
                    Inl e \<Rightarrow> c2
                  | Inr b \<Rightarrow> (case Atoi b of
                               None \<Rightarrow> c2
                             | Some targetSeqNum \<Rightarrow> cache_SetNextTargetMsgSeqNum targetSeqNum c2));
            w6 = (case tmpHeaderFile of Inl e \<Rightarrow> w5 | Inr f \<Rightarrow> snd (snd (file_Close f w5)))
        in ((ctime \<noteq> None, None), store\<lparr>cache := c3, offsets := offs\<rparr>, w6)))))))"

definition setSession :: "state \<Rightarrow> error option \<times> state" where
  "setSession s = (case s of (store, w) \<Rightarrow>
     (case file_Seek (sessionFile store) SEEK_SET w of
        (Inl e, w1) \<Rightarrow> (Some (ErrRewind (sessionFname store) e), store, w1)
      | (Inr (p, f1), w1) \<Rightarrow>
          (case MarshalText (cache_CreationTime (cache store)) of
             None \<Rightarrow> (Some (ErrMarshal (sessionFname store)), store\<lparr>sessionFile := Some f1\<rparr>, w1)
           | Some data \<Rightarrow>
               (case file_Write (Some f1) data w1 of
                  (Inl e, w2) \<Rightarrow>
                    (Some (ErrWrite (sessionFname store) e), store\<lparr>sessionFile := Some f1\<rparr>, w2)
                | (Inr f2, w2) \<Rightarrow>
                    (case file_Sync (Some f2) w2 of
                       (Some e, w3) \<Rightarrow>
                         (Some (ErrFlush (sessionFname store) e), store\<lparr>sessionFile := Some f2\<rparr>, w3)
                     | (None, w3) \<Rightarrow> (None, store\<lparr>sessionFile := Some f2\<rparr>, w3))))))"

text \<open>
  \<^verbatim>\<open>setSeqNum(f, seqNum)\<close>: rewind, print the number in 19 columns, flush. The result
  carries the file as the calls left it. The messages name the file with \<^verbatim>\<open>f.Name()\<close>,
  which panics on a nil file.
\<close>

definition setSeqNum :: "osFile option \<Rightarrow> int \<Rightarrow> world \<Rightarrow> error option \<times> osFile option \<times> world" where
  "setSeqNum f seqNum w =
     (case file_Seek f SEEK_SET w of
        (Inl e, w1) \<Rightarrow>
          (case f of None \<Rightarrow> (Some Panic, f, w1) | Some h \<Rightarrow> (Some (ErrRewind (hname h) e), f, w1))
      | (Inr (p, f1), w1) \<Rightarrow>
          (case file_Write (Some f1) (fmt_019d seqNum) w1 of
             (Inl e, w2) \<Rightarrow> (Some (ErrWrite (hname f1) e), Some f1, w2)
           | (Inr f2, w2) \<Rightarrow>
               (case file_Sync (Some f2) w2 of
                  (Some e, w3) \<Rightarrow> (Some (ErrFlush (hname f2) e), Some f2, w3)
                | (None, w3) \<Rightarrow> (None, Some f2, w3))))"

definition NextSenderMsgSeqNum :: "fileStore \<Rightarrow> int" where
  "NextSenderMsgSeqNum store = cache_NextSenderMsgSeqNum (cache store)"

definition NextTargetMsgSeqNum :: "fileStore \<Rightarrow> int" where
  "NextTargetMsgSeqNum store = cache_NextTargetMsgSeqNum (cache store)"

definition SetNextSenderMsgSeqNum :: "int \<Rightarrow> state \<Rightarrow> error option \<times> state" where
  "SetNextSenderMsgSeqNum next' s = (case s of (store, w) \<Rightarrow>
     (case setSeqNum (senderSeqNumsFile store) next' w of
        (err, f, w') \<Rightarrow>
          (err, store\<lparr>cache := cache_SetNextSenderMsgSeqNum next' (cache store),
                       senderSeqNumsFile := f\<rparr>, w')))"

definition SetNextTargetMsgSeqNum :: "int \<Rightarrow> state \<Rightarrow> error option \<times> state" where
  "SetNextTargetMsgSeqNum next' s = (case s of (store, w) \<Rightarrow>
     (case setSeqNum (targetSeqNumsFile store) next' w of
        (err, f, w') \<Rightarrow>
          (err, store\<lparr>cache := cache_SetNextTargetMsgSeqNum next' (cache store),
                       targetSeqNumsFile := f\<rparr>, w')))"

definition IncrNextSenderMsgSeqNum :: "state \<Rightarrow> error option \<times> state" where
  "IncrNextSenderMsgSeqNum s = (case s of (store, w) \<Rightarrow>
     let c = cache_IncrNextSenderMsgSeqNum (cache store)
     in (case setSeqNum (senderSeqNumsFile store) (cache_NextSenderMsgSeqNum c) w of
           (err, f, w') \<Rightarrow> (err, store\<lparr>cache := c, senderSeqNumsFile := f\<rparr>, w')))"

definition IncrNextTargetMsgSeqNum :: "state \<Rightarrow> error option \<times> state" where
  "IncrNextTargetMsgSeqNum s = (case s of (store, w) \<Rightarrow>
     let c = cache_IncrNextTargetMsgSeqNum (cache store)
     in (case setSeqNum (targetSeqNumsFile store) (cache_NextTargetMsgSeqNum c) w of
           (err, f, w') \<Rightarrow> (err, store\<lparr>cache := c, targetSeqNumsFile := f\<rparr>, w')))"

definition CreationTime :: "fileStore \<Rightarrow> time" where
  "CreationTime store = cache_CreationTime (cache store)"

definition SaveMessage :: "int \<Rightarrow> string \<Rightarrow> state \<Rightarrow> error option \<times> state" where
  "SaveMessage seqNum msg s = (case s of (store, w) \<Rightarrow>
     (case file_Seek (bodyFile store) SEEK_END w of
        (Inl e, w1) \<Rightarrow> (Some (ErrSeekEnd (bodyFname store) e), store, w1)
      | (Inr (off, b1), w1) \<Rightarrow>
          (case file_Seek (headerFile store) SEEK_END w1 of
             (Inl e, w2) \<Rightarrow>
               (Some (ErrSeekEnd (headerFname store) e), store\<lparr>bodyFile := Some b1\<rparr>, w2)
           | (Inr (hoff, h1), w2) \<Rightarrow>
               (case file_Write (Some h1) (header_line seqNum off (int (length msg))) w2 of
                  (Inl e, w3) \<Rightarrow>
                    (Some (ErrWrite (headerFname store) e),
                     store\<lparr>bodyFile := Some b1, headerFile := Some h1\<rparr>, w3)
                | (Inr h2, w3) \<Rightarrow>
                    let store1 = store\<lparr>offsets := (offsets store)(seqNum \<mapsto>
                                         \<lparr>offset = off, size' = int (length msg)\<rparr>),
                                       bodyFile := Some b1, headerFile := Some h2\<rparr>
                    in (case file_Write (Some b1) msg w3 of
                          (Inl e, w4) \<Rightarrow> (Some (ErrWrite (bodyFname store) e), store1, w4)
                        | (Inr b2, w4) \<Rightarrow>
                            let store2 = store1\<lparr>bodyFile := Some b2\<rparr>
                            in (case file_Sync (Some b2) w4 of
                                  (Some e, w5) \<Rightarrow>
                                    (Some (ErrFlush (bodyFname store) e), store2, w5)
                                | (None, w5) \<Rightarrow>
                                    (case file_Sync (Some h2) w5 of
                                       (Some e, w6) \<Rightarrow>
                                         (Some (ErrFlush (headerFname store) e), store2, w6)
                                     | (None, w6) \<Rightarrow> (None, store2, w6))))))))"

text \<open>
  \<^verbatim>\<open>getMessage\<close> returns \<open>(msg, found, err)\<close>. The buffer is made with the indexed size
  (a negative size panics) and filled by one \<^verbatim>\<open>ReadAt\<close> at the indexed offset.
\<close>

definition getMessage :: "fileStore \<Rightarrow> int \<Rightarrow> world \<Rightarrow> (string \<times> bool \<times> error option) \<times> world" where
  "getMessage store seqNum w =
     (case offsets store seqNum of
        None \<Rightarrow> (([], False, None), w)
      | Some msgInfo \<Rightarrow>
          if size' msgInfo < 0 then (([], True, Some Panic), w)
          else (case file_ReadAt (bodyFile store) (nat (size' msgInfo)) (offset msgInfo) w of
                  (Inl e, w') \<Rightarrow> (([], True, Some (ErrRead (bodyFname store) e)), w')
                | (Inr msg, w') \<Rightarrow> ((msg, True, None), w')))"

text \<open>
  The loop of \<^verbatim>\<open>GetMessages\<close>: \<^verbatim>\<open>for seqNum := beginSeqNum; seqNum <= endSeqNum; seqNum++\<close>.
  The counter is a Go \<^verbatim>\<open>int\<close>, so the increment wraps, and with \<open>endSeqNum\<close> the largest
  \<^verbatim>\<open>int\<close> the loop has no exit but an error: the result is an option, \<open>None\<close> where the
  loop runs forever.
\<close>

partial_function (option) GetMessages_loop ::
  "fileStore \<Rightarrow> int \<Rightarrow> int \<Rightarrow> string list \<Rightarrow> world \<Rightarrow> ((string list \<times> error option) \<times> world) option" where
  "GetMessages_loop store seqNum endSeqNum msgs w =
     (if seqNum \<le> endSeqNum
      then (case getMessage store seqNum w of
              ((m, found, Some e), w') \<Rightarrow> Some (([], Some e), w')
            | ((m, found, None), w') \<Rightarrow>
                GetMessages_loop store (wrap64 (seqNum + 1)) endSeqNum
                  (if found then msgs @ [m] else msgs) w')
      else Some ((msgs, None), w))"

declare GetMessages_loop.simps [code]

definition GetMessages :: "fileStore \<Rightarrow> int \<Rightarrow> int \<Rightarrow> world \<Rightarrow> ((string list \<times> error option) \<times> world) option" where
  "GetMessages store beginSeqNum endSeqNum w = GetMessages_loop store beginSeqNum endSeqNum [] w"

definition openBody :: "state \<Rightarrow> error option \<times> state" where
  "openBody s = (case s of (store, w) \<Rightarrow>
     (case openOrCreateFile (bodyFname store) w of
        (Inl e, w') \<Rightarrow> (Some e, store\<lparr>bodyFile := None\<rparr>, w')
      | (Inr f, w') \<Rightarrow> (None, store\<lparr>bodyFile := Some f\<rparr>, w')))"

definition openHeader :: "state \<Rightarrow> error option \<times> state" where
  "openHeader s = (case s of (store, w) \<Rightarrow>
     (case openOrCreateFile (headerFname store) w of
        (Inl e, w') \<Rightarrow> (Some e, store\<lparr>headerFile := None\<rparr>, w')
      | (Inr f, w') \<Rightarrow> (None, store\<lparr>headerFile := Some f\<rparr>, w')))"

definition openSession :: "state \<Rightarrow> error option \<times> state" where
  "openSession s = (case s of (store, w) \<Rightarrow>
     (case openOrCreateFile (sessionFname store) w of
        (Inl e, w') \<Rightarrow> (Some e, store\<lparr>sessionFile := None\<rparr>, w')
      | (Inr f, w') \<Rightarrow> (None, store\<lparr>sessionFile := Some f\<rparr>, w')))"

definition openSenderSeqNums :: "state \<Rightarrow> error option \<times> state" where
  "openSenderSeqNums s = (case s of (store, w) \<Rightarrow>
     (case openOrCreateFile (senderSeqNumsFname store) w of
        (Inl e, w') \<Rightarrow> (Some e, store\<lparr>senderSeqNumsFile := None\<rparr>, w')
      | (Inr f, w') \<Rightarrow> (None, store\<lparr>senderSeqNumsFile := Some f\<rparr>, w')))"

definition openTargetSeqNums :: "state \<Rightarrow> error option \<times> state" where
  "openTargetSeqNums s = (case s of (store, w) \<Rightarrow>
     (case openOrCreateFile (targetSeqNumsFname store) w of
        (Inl e, w') \<Rightarrow> (Some e, store\<lparr>targetSeqNumsFile := None\<rparr>, w')
      | (Inr f, w') \<Rightarrow> (None, store\<lparr>targetSeqNumsFile := Some f\<rparr>, w')))"

text \<open>
  \<^verbatim>\<open>Refresh\<close>, statement by statement. The index \<open>offsets\<close> is not cleared anywhere: it
  is only written by the loop of \<^verbatim>\<open>populateCache\<close>. The results of the two calls that
  persist the counters at the end are dropped, and the method returns nil.
\<close>

definition Refresh :: "state \<Rightarrow> error option \<times> state" where
  "Refresh s = (case s of (store, w) \<Rightarrow>
     (case cache_Reset (cache store) w of (c, w1) \<Rightarrow>
     and_then (Close (store\<lparr>cache := c\<rparr>, w1)) (\<lambda>s.
     (case populateCache s of ((creationTimePopulated, err), s) \<Rightarrow>
     and_then (err, s) (\<lambda>s.
     and_then (openBody s) (\<lambda>s.
     and_then (openHeader s) (\<lambda>s.
     and_then (openSession s) (\<lambda>s.
     and_then (openSenderSeqNums s) (\<lambda>s.
     and_then (openTargetSeqNums s) (\<lambda>s.
     and_then (if \<not> creationTimePopulated then setSession s else (None, s)) (\<lambda>s.
     (case SetNextSenderMsgSeqNum (NextSenderMsgSeqNum (fst s)) s of (err1, s) \<Rightarrow>
     (case SetNextTargetMsgSeqNum (NextTargetMsgSeqNum (fst s)) s of (err2, s) \<Rightarrow>
        (None, s))))))))))))))"

definition removeStoreFile :: "(fileStore \<Rightarrow> fname) \<Rightarrow> state \<Rightarrow> error option \<times> state" where
  "removeStoreFile fname s = (case s of (store, w) \<Rightarrow>
     (case removeFile (fname store) w of (err, w') \<Rightarrow> (err, store, w')))"

definition Reset :: "state \<Rightarrow> error option \<times> state" where
  "Reset s = (case s of (store, w) \<Rightarrow>
     (case cache_Reset (cache store) w of (c, w1) \<Rightarrow>
     and_then (Close (store\<lparr>cache := c\<rparr>, w1)) (\<lambda>s.
     and_then (removeStoreFile bodyFname s) (\<lambda>s.
     and_then (removeStoreFile headerFname s) (\<lambda>s.
     and_then (removeStoreFile sessionFname s) (\<lambda>s.
     and_then (removeStoreFile senderSeqNumsFname s) (\<lambda>s.
     and_then (removeStoreFile targetSeqNumsFname s) (\<lambda>s.
       Refresh s))))))))"

text \<open>\<^verbatim>\<open>path.Join(dirname, fmt.Sprintf("%s.%s", sessionID, suffix))\<close>, for a clean path.\<close>

definition store_path :: "string \<Rightarrow> string \<Rightarrow> string \<Rightarrow> fname" where
  "store_path dirname sid suffix = dirname @ ''/'' @ sid @ ''.'' @ suffix"

definition newFileStore :: "string \<Rightarrow> string \<Rightarrow> world \<Rightarrow> (error + fileStore) \<times> world" where
  "newFileStore sid dirname w =
     (case os_MkdirAll dirname w of
        (Some e, w1) \<Rightarrow> (Inl (OsError e), w1)
      | (None, w1) \<Rightarrow>
          let store = \<lparr>sessionID = sid, cache = memoryStore_zero, offsets = Map.empty,
                       bodyFname = store_path dirname sid ''body'',
                       headerFname = store_path dirname sid ''header'',
                       sessionFname = store_path dirname sid ''session'',
                       senderSeqNumsFname = store_path dirname sid ''senderseqnums'',
                       targetSeqNumsFname = store_path dirname sid ''targetseqnums'',
                       bodyFile = None, headerFile = None, sessionFile = None,
                       senderSeqNumsFile = None, targetSeqNumsFile = None\<rparr>
          in (case Refresh (store, w1) of
                (Some e, store', w2) \<Rightarrow> (Inl e, w2)
              | (None, store', w2) \<Rightarrow> (Inr store', w2)))"

definition Create :: "string \<Rightarrow> (string \<rightharpoonup> string) \<Rightarrow> world \<Rightarrow> (error + fileStore) \<times> world" where
  "Create sid sessionSettings w =
     (case sessionSettings FileStorePath of
        None \<Rightarrow> (Inl (ErrSettingNotFound sid FileStorePath), w)
      | Some dirname \<Rightarrow> newFileStore sid dirname w)"

section \<open>Header entries and the index they build\<close>

text \<open>
  For stating what the store does: a header entry is a triple of sequence number, offset
  and size; its line is what \<^verbatim>\<open>SaveMessage\<close> prints; the index of a list of entries
  is what storing them one after the other, in order, leaves in the map.
\<close>

definition go_int :: "int \<Rightarrow> bool" where
  "go_int n = (int_min \<le> n \<and> n \<le> int_max)"

definition valid_entry :: "int \<times> int \<times> int \<Rightarrow> bool" where
  "valid_entry e = (case e of (s, off, sz) \<Rightarrow> go_int s \<and> go_int off \<and> go_int sz)"

definition entry_line :: "int \<times> int \<times> int \<Rightarrow> string" where
  "entry_line e = (case e of (s, off, sz) \<Rightarrow> header_line s off sz)"

definition index_entry :: "int \<times> int \<times> int \<Rightarrow> (int \<rightharpoonup> msgDef) \<Rightarrow> (int \<rightharpoonup> msgDef)" where
  "index_entry e m = (case e of (s, off, sz) \<Rightarrow> m(s \<mapsto> \<lparr>offset = off, size' = sz\<rparr>))"

definition index_of :: "(int \<times> int \<times> int) list \<Rightarrow> (int \<rightharpoonup> msgDef) \<Rightarrow> (int \<rightharpoonup> msgDef)" where
  "index_of es m = fold index_entry es m"

text \<open>
  The three results of \<^verbatim>\<open>getMessage\<close> for a sequence number: the bytes, \<open>found\<close> and the error.
\<close>

definition read_msg :: "fileStore \<Rightarrow> world \<Rightarrow> int \<Rightarrow> string" where
  "read_msg store w k = fst (fst (getMessage store k w))"

definition read_found :: "fileStore \<Rightarrow> world \<Rightarrow> int \<Rightarrow> bool" where
  "read_found store w k = fst (snd (fst (getMessage store k w)))"

definition read_err :: "fileStore \<Rightarrow> world \<Rightarrow> int \<Rightarrow> error option" where
  "read_err store w k = snd (snd (fst (getMessage store k w)))"


text \<open>
  A store is well formed when its five file names differ and each open file is the one its
  name says. What has reached stable storage of a file is \<open>stable\<close>.
\<close>

definition handle_for :: "osFile option \<Rightarrow> fname \<Rightarrow> bool" where
  "handle_for f fname = (case f of None \<Rightarrow> True | Some h \<Rightarrow> hname h = fname)"

definition wf_store :: "fileStore \<Rightarrow> bool" where
  "wf_store store =
     (distinct [bodyFname store, headerFname store, sessionFname store,
                senderSeqNumsFname store, targetSeqNumsFname store]
      \<and> handle_for (bodyFile store) (bodyFname store)
      \<and> handle_for (headerFile store) (headerFname store)
      \<and> handle_for (sessionFile store) (sessionFname store)
      \<and> handle_for (senderSeqNumsFile store) (senderSeqNumsFname store)
      \<and> handle_for (targetSeqNumsFile store) (targetSeqNumsFname store))"

definition stable :: "world \<Rightarrow> fname \<Rightarrow> string" where
  "stable w fname = (case files w fname of None \<Rightarrow> [] | Some f \<Rightarrow> fstable f)"

text \<open>
  For the round trip through close and reopen: a store is open when its five files are
  open; \<open>closed_handles\<close> is the store after \<^verbatim>\<open>Close\<close>, \<open>reopened\<close> the store after a
  \<^verbatim>\<open>Refresh\<close> that found all five files; \<open>store_paths\<close> says that the file names are
  those that \<^verbatim>\<open>newFileStore\<close> builds from the session id and the directory. The files
  hold the state of the store (\<open>persisted\<close>) when the header file is the lines of the entries
  \<open>es\<close> and the index has their entries, the session file decodes to the creation time,
  and the counter files hold the 19 columns of the two counters.
\<close>

definition handle_open :: "osFile option \<Rightarrow> bool" where
  "handle_open f = (case f of None \<Rightarrow> False | Some h \<Rightarrow> \<not> hclosed h)"

definition is_open :: "fileStore \<Rightarrow> bool" where
  "is_open store =
     (handle_open (bodyFile store) \<and> handle_open (headerFile store)
      \<and> handle_open (sessionFile store) \<and> handle_open (senderSeqNumsFile store)
      \<and> handle_open (targetSeqNumsFile store))"

definition closed_handles :: "fileStore \<Rightarrow> fileStore" where
  "closed_handles store = store\<lparr>bodyFile := None, headerFile := None, sessionFile := None,
     senderSeqNumsFile := None, targetSeqNumsFile := None\<rparr>"

definition fresh_handle :: "fname \<Rightarrow> osFile" where
  "fresh_handle fname = \<lparr>hname = fname, hpos = 0, hclosed = False\<rparr>"


definition persisted :: "(int \<times> int \<times> int) list \<Rightarrow> fileStore \<Rightarrow> world \<Rightarrow> bool" where
  "persisted es store w =
     (files w (bodyFname store) \<noteq> None
      \<and> files w (headerFname store) \<noteq> None
      \<and> contents w (headerFname store) = concat (map entry_line es)
      \<and> list_all valid_entry es
      \<and> list_all (\<lambda>k. offsets store k = index_of es Map.empty k) (map fst es)
      \<and> files w (sessionFname store) \<noteq> None
      \<and> UnmarshalText (contents w (sessionFname store)) = Some (CreationTime store)
      \<and> files w (senderSeqNumsFname store) \<noteq> None
      \<and> contents w (senderSeqNumsFname store) = fmt_019d (NextSenderMsgSeqNum store)
      \<and> - (10 ^ 18) < NextSenderMsgSeqNum store \<and> NextSenderMsgSeqNum store \<le> int_max
      \<and> files w (targetSeqNumsFname store) \<noteq> None
      \<and> contents w (targetSeqNumsFname store) = fmt_019d (NextTargetMsgSeqNum store)
      \<and> - (10 ^ 18) < NextTargetMsgSeqNum store \<and> NextTargetMsgSeqNum store \<le> int_max)"

definition store_paths :: "fileStore \<Rightarrow> string \<Rightarrow> bool" where
  "store_paths store dirname =
     (bodyFname store = store_path dirname (sessionID store) ''body''
      \<and> headerFname store = store_path dirname (sessionID store) ''header''
      \<and> sessionFname store = store_path dirname (sessionID store) ''session''
      \<and> senderSeqNumsFname store = store_path dirname (sessionID store) ''senderseqnums''
      \<and> targetSeqNumsFname store = store_path dirname (sessionID store) ''targetseqnums'')"

text \<open>A state keeps the sequence numbers \<open>D\<close> when they all have an index entry.\<close>

definition keeps :: "int set \<Rightarrow> state \<Rightarrow> bool" where
  "keeps D s = (D \<subseteq> dom (offsets (fst s)))"

text \<open>The store that \<^verbatim>\<open>newFileStore\<close> builds before it calls \<^verbatim>\<open>Refresh\<close>.\<close>

definition closed_store :: "string \<Rightarrow> string \<Rightarrow> fileStore" where
  "closed_store sid dirname =
     \<lparr>sessionID = sid, cache = memoryStore_zero, offsets = Map.empty,
      bodyFname = store_path dirname sid ''body'',
      headerFname = store_path dirname sid ''header'',
      sessionFname = store_path dirname sid ''session'',
      senderSeqNumsFname = store_path dirname sid ''senderseqnums'',
      targetSeqNumsFname = store_path dirname sid ''targetseqnums'',
      bodyFile = None, headerFile = None, sessionFile = None,
      senderSeqNumsFile = None, targetSeqNumsFile = None\<rparr>"

section \<open>Example states\<close>



definition demo_fresh :: world where
  "demo_fresh = \<lparr>files = Map.empty, faults = [], clock = (\<lambda>n. 1000 + n), tick = 0\<rparr>"

definition demo_opened :: state where
  "demo_opened =
     (case newFileStore ''S'' ''d'' demo_fresh of
        (Inr store, w) \<Rightarrow> (store, w)
      | (Inl e, w) \<Rightarrow> (closed_store ''S'' ''d'', w))"

definition demo_saved :: state where
  "demo_saved = snd (SaveMessage 3 ''C'' (snd (SaveMessage 1 ''A'' demo_opened)))"

definition demo_store :: fileStore where
  "demo_store =
     \<lparr>sessionID = ''S'',
      cache = \<lparr>nextSenderSeqNum = 1, nextTargetSeqNum = 1, creationTime = 1000\<rparr>,
      offsets = [1 \<mapsto> \<lparr>offset = 0, size' = 1\<rparr>, 3 \<mapsto> \<lparr>offset = 1, size' = 1\<rparr>],
      bodyFname = ''d/S.body'', headerFname = ''d/S.header'', sessionFname = ''d/S.session'',
      senderSeqNumsFname = ''d/S.senderseqnums'', targetSeqNumsFname = ''d/S.targetseqnums'',
      bodyFile = Some \<lparr>hname = ''d/S.body'', hpos = 2, hclosed = False\<rparr>,
      headerFile = Some \<lparr>hname = ''d/S.header'', hpos = 12, hclosed = False\<rparr>,
      sessionFile = Some \<lparr>hname = ''d/S.session'', hpos = 4, hclosed = False\<rparr>,
      senderSeqNumsFile = Some \<lparr>hname = ''d/S.senderseqnums'', hpos = 19, hclosed = False\<rparr>,
      targetSeqNumsFile = Some \<lparr>hname = ''d/S.targetseqnums'', hpos = 19, hclosed = False\<rparr>\<rparr>"

definition demo_files :: "fname \<rightharpoonup> osfile" where
  "demo_files =
     [''d/S.body'' \<mapsto> \<lparr>fdata = ''AC'', fstable = ''AC''\<rparr>,
      ''d/S.header'' \<mapsto> \<lparr>fdata = ''1,0,1\<newline>3,1,1\<newline>'', fstable = ''1,0,1\<newline>3,1,1\<newline>''\<rparr>,
      ''d/S.session'' \<mapsto> \<lparr>fdata = ''1000'', fstable = ''1000''\<rparr>,
      ''d/S.senderseqnums'' \<mapsto> \<lparr>fdata = ''0000000000000000001'', fstable = ''0000000000000000001''\<rparr>,
      ''d/S.targetseqnums'' \<mapsto> \<lparr>fdata = ''0000000000000000001'', fstable = ''0000000000000000001''\<rparr>]"

definition demo_world :: "bool list \<Rightarrow> world" where
  "demo_world fs = \<lparr>files = demo_files, faults = fs, clock = (\<lambda>n. 1000 + n), tick = 1\<rparr>"

definition demo_names :: "fname list" where
  "demo_names = [''d/S.body'', ''d/S.header'', ''d/S.session'', ''d/S.senderseqnums'',
     ''d/S.targetseqnums'', ''d/S.other'']"




section \<open>Decimal text: printing and parsing\<close>

lemma digit_cases:
  "d < 10 \<Longrightarrow> d = 0 \<or> d = 1 \<or> d = 2 \<or> d = 3 \<or> d = 4 \<or> d = 5 \<or> d = 6 \<or> d = 7 \<or> d = 8 \<or> d = (9::nat)"
  by arith

lemma digit_val_char: "d < 10 \<Longrightarrow> digit_val (digit_char d) = d"
  using digit_cases [of d] by (auto simp add: digit_val_def digit_char_def)

lemma is_digit_char: "d < 10 \<Longrightarrow> is_digit (digit_char d)"
  using digit_cases [of d] by (auto simp add: is_digit_def digit_char_def)

lemma digits_val_snoc: "digits_val (s @ [c]) = 10 * digits_val s + digit_val c"
  by (simp add: digits_val_def)

lemma digits_val_nat_digits: "digits_val (nat_digits n) = n"
proof (induction n rule: nat_digits.induct)
  case (1 n)
  show ?case
  proof (cases "n < 10")
    case True
    then show ?thesis
      by (simp add: nat_digits.simps [of n] digits_val_def digit_val_char)
  next
    case False
    then show ?thesis
      using 1 by (simp add: nat_digits.simps [of n] digits_val_snoc digit_val_char)
  qed
qed

lemma nat_digits_all: "list_all is_digit (nat_digits n)"
proof (induction n rule: nat_digits.induct)
  case (1 n)
  then show ?case
    by (cases "n < 10") (simp_all add: nat_digits.simps [of n] is_digit_char)
qed

lemma nat_digits_nonempty: "nat_digits n \<noteq> []"
  by (simp add: nat_digits.simps [of n])

lemma nat_digits_length: "n < 10 ^ k \<Longrightarrow> 0 < k \<Longrightarrow> length (nat_digits n) \<le> k"
proof (induction n arbitrary: k rule: nat_digits.induct)
  case (1 n)
  show ?case
  proof (cases "n < 10")
    case True
    then show ?thesis
      using 1(3) by (simp add: nat_digits.simps [of n])
  next
    case False
    from False 1(2,3) have "1 < k"
      by (cases "k = 1") auto
    then obtain j where j: "k = Suc j" "0 < j"
      by (cases k) auto
    from 1(2) j have "n div 10 < 10 ^ j"
      by (simp add: less_mult_imp_div_less mult.commute)
    from 1(1) [OF False this j(2)] show ?thesis
      using False j by (simp add: nat_digits.simps [of n])
  qed
qed




lemma zero_pad_length: "length s \<le> k \<Longrightarrow> length (zero_pad k s) = k"
  by (simp add: zero_pad_def)







lemma fmt_019d_length:
  assumes "- (10 ^ 18) < n" "n < 10 ^ 19"
  shows "length (fmt_019d n) = 19"
proof (cases "n < 0")
  case True
  with assms have "nat (- n) < 10 ^ 18"
    by (simp add: nat_less_iff)
  then have "length (nat_digits (nat (- n))) \<le> 18"
    by (rule nat_digits_length) simp
  with True show ?thesis
    by (simp add: fmt_019d_def zero_pad_length)
next
  case False
  with assms have "nat n < 10 ^ 19"
    by (simp add: nat_less_iff)
  then have "length (nat_digits (nat n)) \<le> 19"
    by (rule nat_digits_length) simp
  with False show ?thesis
    by (simp add: fmt_019d_def zero_pad_length)
qed


section \<open>Scanning the lines that the store prints\<close>








lemma entry_line_simp: "entry_line (s, off, sz) = header_line s off sz"
  by (simp add: entry_line_def)

lemma index_entry_simp: "index_entry (s, off, sz) m = m(s \<mapsto> \<lparr>offset = off, size' = sz\<rparr>)"
  by (simp add: index_entry_def)

lemma syscall_no_faults: "faults w = [] \<Longrightarrow> syscall w = (False, w)"
  by (simp add: syscall_def)


lemma index_of_append: "index_of (es1 @ es2) m = index_of es2 (index_of es1 m)"
  by (simp add: index_of_def)




section \<open>System calls that succeed\<close>

lemma syscall_files: "syscall w = (b, w') \<Longrightarrow> files w' = files w \<and> clock w' = clock w \<and> tick w' = tick w"
  by (auto simp add: syscall_def split: list.splits)

lemma file_Seek_ok:
  assumes "file_Seek f wh w = (Inr (p, h'), w')"
  obtains h fl where "f = Some h" "\<not> hclosed h" "files w (hname h) = Some fl" "files w' = files w"
    "h' = h\<lparr>hpos := (case wh of SEEK_SET \<Rightarrow> 0 | SEEK_END \<Rightarrow> length (fdata fl))\<rparr>"
    "p = int (hpos h')"
proof -
  from assms obtain h where h: "f = Some h" "\<not> hclosed h"
    by (auto simp add: file_Seek_def checkValid_def split: option.splits if_splits)
  obtain b w1 where s: "syscall w = (b, w1)"
    by (cases "syscall w")
  with assms h obtain fl where "files w1 (hname h) = Some fl" "w' = w1"
    "h' = h\<lparr>hpos := (case wh of SEEK_SET \<Rightarrow> 0 | SEEK_END \<Rightarrow> length (fdata fl))\<rparr>" "p = int (hpos h')"
    by (auto simp add: file_Seek_def checkValid_def Let_def split: option.splits if_splits)
  with syscall_files [OF s] h that show ?thesis
    by auto
qed

lemma file_Write_ok:
  assumes "file_Write f b w = (Inr h', w')"
  obtains h fl where "f = Some h" "\<not> hclosed h" "files w (hname h) = Some fl"
    "files w' = (files w)(hname h \<mapsto> fl\<lparr>fdata := write_at (hpos h) b (fdata fl)\<rparr>)"
    "h' = h\<lparr>hpos := hpos h + length b\<rparr>"
proof -
  from assms obtain h where h: "f = Some h" "\<not> hclosed h"
    by (auto simp add: file_Write_def checkValid_def split: option.splits if_splits)
  obtain c w1 where s: "syscall w = (c, w1)"
    by (cases "syscall w")
  with assms h obtain fl where "files w1 (hname h) = Some fl"
    "files w' = (files w1)(hname h \<mapsto> fl\<lparr>fdata := write_at (hpos h) b (fdata fl)\<rparr>)"
    "h' = h\<lparr>hpos := hpos h + length b\<rparr>"
    by (auto simp add: file_Write_def checkValid_def split: option.splits if_splits)
  with syscall_files [OF s] h that show ?thesis
    by auto
qed

lemma file_Sync_ok:
  assumes "file_Sync f w = (None, w')"
  obtains h fl where "f = Some h" "\<not> hclosed h" "files w (hname h) = Some fl"
    "files w' = (files w)(hname h \<mapsto> fl\<lparr>fstable := fdata fl\<rparr>)"
proof -
  from assms obtain h where h: "f = Some h" "\<not> hclosed h"
    by (auto simp add: file_Sync_def checkValid_def split: option.splits if_splits)
  obtain c w1 where s: "syscall w = (c, w1)"
    by (cases "syscall w")
  with assms h obtain fl where "files w1 (hname h) = Some fl"
    "files w' = (files w1)(hname h \<mapsto> fl\<lparr>fstable := fdata fl\<rparr>)"
    by (auto simp add: file_Sync_def checkValid_def split: option.splits if_splits)
  with syscall_files [OF s] h that show ?thesis
    by auto
qed


lemma write_at_start: "write_at 0 b d = b @ drop (length b) d"
  by (simp add: write_at_def)

lemma write_at_end: "write_at (length d) b d = d @ b"
  by (simp add: write_at_def)

section \<open>Reading messages\<close>



lemma getMessage_found: "fst (snd (fst (getMessage store k w))) = (offsets store k \<noteq> None)"
  by (simp add: getMessage_def split: option.splits sum.splits prod.splits)

lemma getMessage_error:
  "snd (snd (fst (getMessage store k w))) = Some e \<Longrightarrow>
   fst (snd (fst (getMessage store k w))) \<and> fst (fst (getMessage store k w)) = []"
  by (auto simp add: getMessage_def split: option.splits sum.splits prod.splits if_splits)

lemma GetMessages_loop_error_nil:
  assumes "GetMessages_loop store b e acc w = Some y"
  shows "snd (fst y) \<noteq> None \<longrightarrow> fst (fst y) = []"
  using assms
proof (induction rule: GetMessages_loop.raw_induct [rotated 1, consumes 1])
  case (1 loop store seqNum endSeqNum msgs w y)
  show ?case
  proof (cases "seqNum \<le> endSeqNum")
    case False
    with 1(2) show ?thesis
      by auto
  next
    case True
    obtain m found err w' where g: "getMessage store seqNum w = ((m, found, err), w')"
      by (metis prod.exhaust)
    show ?thesis
    proof (cases err)
      case None
      with 1(2) True g
      have "loop store (wrap64 (seqNum + 1)) endSeqNum (if found then msgs @ [m] else msgs) w' = Some y"
        by simp
      then show ?thesis
        by (rule 1(1))
    next
      case (Some x)
      with 1(2) True g show ?thesis
        by auto
    qed
  qed
qed




lemma getMessage_reads_body:
  assumes "faults w = []" "offsets store k = Some d" "bodyFile store = Some h" "\<not> hclosed h"
    "files w (hname h) = Some fl" "0 \<le> offset d" "0 \<le> size' d"
    "nat (offset d) + nat (size' d) \<le> length (fdata fl)"
  shows "getMessage store k w = ((take (nat (size' d)) (drop (nat (offset d)) (fdata fl)), True, None), w)"
  using assms
  by (simp add: getMessage_def file_ReadAt_def checkValid_def syscall_no_faults)

section \<open>Saving a message\<close>

lemma SaveMessage_ok:
  assumes "SaveMessage seqNum msg (store, w) = (None, store', w')"
  obtains off b1 w1 hoff h1 w2 h2 w3 b2 w4 w5 where
    "file_Seek (bodyFile store) SEEK_END w = (Inr (off, b1), w1)"
    "file_Seek (headerFile store) SEEK_END w1 = (Inr (hoff, h1), w2)"
    "file_Write (Some h1) (header_line seqNum off (int (length msg))) w2 = (Inr h2, w3)"
    "file_Write (Some b1) msg w3 = (Inr b2, w4)"
    "file_Sync (Some b2) w4 = (None, w5)"
    "file_Sync (Some h2) w5 = (None, w')"
    "store' = store\<lparr>offsets := (offsets store)(seqNum \<mapsto> \<lparr>offset = off, size' = int (length msg)\<rparr>),
                     bodyFile := Some b2, headerFile := Some h2\<rparr>"
proof -
  obtain r1 w1 where 1: "file_Seek (bodyFile store) SEEK_END w = (r1, w1)"
    by (cases "file_Seek (bodyFile store) SEEK_END w")
  with assms obtain p1 where "r1 = Inr p1"
    by (cases r1) (simp_all add: SaveMessage_def)
  then obtain off b1 where r1: "r1 = Inr (off, b1)"
    by (cases p1) simp
  obtain r2 w2 where 2: "file_Seek (headerFile store) SEEK_END w1 = (r2, w2)"
    by (cases "file_Seek (headerFile store) SEEK_END w1")
  with assms 1 r1 obtain p2 where "r2 = Inr p2"
    by (cases r2) (simp_all add: SaveMessage_def)
  then obtain hoff h1 where r2: "r2 = Inr (hoff, h1)"
    by (cases p2) simp
  obtain r3 w3 where 3: "file_Write (Some h1) (header_line seqNum off (int (length msg))) w2 = (r3, w3)"
    by (cases "file_Write (Some h1) (header_line seqNum off (int (length msg))) w2")
  with assms 1 r1 2 r2 obtain h2 where r3: "r3 = Inr h2"
    by (cases r3) (simp_all add: SaveMessage_def)
  obtain r4 w4 where 4: "file_Write (Some b1) msg w3 = (r4, w4)"
    by (cases "file_Write (Some b1) msg w3")
  with assms 1 r1 2 r2 3 r3 obtain b2 where r4: "r4 = Inr b2"
    by (cases r4) (simp_all add: SaveMessage_def Let_def)
  obtain r5 w5 where 5: "file_Sync (Some b2) w4 = (r5, w5)"
    by (cases "file_Sync (Some b2) w4")
  with assms 1 r1 2 r2 3 r3 4 r4 have r5: "r5 = None"
    by (cases r5) (simp_all add: SaveMessage_def Let_def)
  obtain r6 w6 where 6: "file_Sync (Some h2) w5 = (r6, w6)"
    by (cases "file_Sync (Some h2) w5")
  with assms 1 r1 2 r2 3 r3 4 r4 5 r5 have r6: "r6 = None"
    by (cases r6) (simp_all add: SaveMessage_def Let_def)
  with assms 1 r1 2 r2 3 r3 4 r4 5 r5 6 have fin: "w6 = w'"
    "store' = store\<lparr>offsets := (offsets store)(seqNum \<mapsto> \<lparr>offset = off, size' = int (length msg)\<rparr>),
                     bodyFile := Some b2, headerFile := Some h2\<rparr>"
    by (auto simp add: SaveMessage_def Let_def)
  show ?thesis
    using that 1 r1 2 r2 3 r3 4 r4 5 r5 6 r6 fin by blast
qed

section \<open>Rebuilding the index\<close>




section \<open>Closing and reopening\<close>



lemma closeFile_nil: "closeFile None w = (None, None, w)"
  by (simp add: closeFile_def)


lemma Close_closed: "Close (closed_handles store, w) = (None, closed_handles store, w)"
  by (simp add: Close_def closeBody_def closeHeader_def closeSession_def closeSenderSeqNums_def
      closeTargetSeqNums_def and_then_def closeFile_nil closed_handles_def)




lemma setSeqNum_no_faults:
  assumes "faults w = []" "\<not> hclosed h" "files w (hname h) = Some fl"
  shows "setSeqNum (Some h) n w =
    (None, Some (h\<lparr>hpos := length (fmt_019d n)\<rparr>),
     w\<lparr>files := (files w)(hname h \<mapsto>
          fl\<lparr>fdata := write_at 0 (fmt_019d n) (fdata fl),
             fstable := write_at 0 (fmt_019d n) (fdata fl)\<rparr>)\<rparr>)"
  using assms
  by (simp add: setSeqNum_def file_Seek_def file_Write_def file_Sync_def checkValid_def
      syscall_no_faults)








lemma Close_nil:
  assumes "bodyFile store = None" "headerFile store = None" "sessionFile store = None"
    "senderSeqNumsFile store = None" "targetSeqNumsFile store = None"
  shows "Close (store, w) = (None, store, w)"
  using assms
  by (cases store)
    (simp add: Close_def closeBody_def closeHeader_def closeSession_def closeSenderSeqNums_def
      closeTargetSeqNums_def and_then_def closeFile_nil)





lemma newFileStore_closed_store:
  "faults w = [] \<Longrightarrow>
   newFileStore sid dirname w =
     (case Refresh (closed_store sid dirname, w) of
        (Some e, store', w2) \<Rightarrow> (Inl e, w2)
      | (None, store', w2) \<Rightarrow> (Inr store', w2))"
  by (simp add: newFileStore_def closed_store_def os_MkdirAll_def syscall_no_faults)


lemma closed_store_fields:
  "bodyFname (closed_store sid dirname) = store_path dirname sid ''body''"
  "headerFname (closed_store sid dirname) = store_path dirname sid ''header''"
  "sessionFname (closed_store sid dirname) = store_path dirname sid ''session''"
  "senderSeqNumsFname (closed_store sid dirname) = store_path dirname sid ''senderseqnums''"
  "targetSeqNumsFname (closed_store sid dirname) = store_path dirname sid ''targetseqnums''"
  "offsets (closed_store sid dirname) = Map.empty"
  "closed_handles (closed_store sid dirname) = closed_store sid dirname"
  by (simp_all add: closed_store_def closed_handles_def)

section \<open>The example states are reached\<close>

lemma demo_saved_is_demo_store:
  "cache (fst demo_saved) = cache demo_store
   \<and> map (offsets (fst demo_saved)) [0, 1, 2, 3, 4] = map (offsets demo_store) [0, 1, 2, 3, 4]
   \<and> bodyFile (fst demo_saved) = bodyFile demo_store
   \<and> headerFile (fst demo_saved) = headerFile demo_store
   \<and> sessionFile (fst demo_saved) = sessionFile demo_store
   \<and> senderSeqNumsFile (fst demo_saved) = senderSeqNumsFile demo_store
   \<and> targetSeqNumsFile (fst demo_saved) = targetSeqNumsFile demo_store
   \<and> map (files (snd demo_saved)) demo_names = map (files (demo_world [])) demo_names
   \<and> faults (snd demo_saved) = [] \<and> tick (snd demo_saved) = tick (demo_world [])"
  by code_simp

section \<open>The files hold the state of the store\<close>

text \<open>
  Where no system call fails, a store opened in a directory that has none of its files is
  open and well formed and its files hold its state; \<^verbatim>\<open>SaveMessage\<close> and the counter
  methods keep it so (for sequence numbers, sizes and counters in the range of a Go
  \<^verbatim>\<open>int\<close>, and counters whose text is 19 columns wide).
\<close>

lemma store_path_distinct:
  "distinct [store_path d s ''body'', store_path d s ''header'', store_path d s ''session'',
     store_path d s ''senderseqnums'', store_path d s ''targetseqnums'']"
  by (simp add: store_path_def)

lemma UnmarshalText_MarshalText: "MarshalText t = Some b \<Longrightarrow> UnmarshalText b = Some t"
  by (auto simp add: MarshalText_def UnmarshalText_def nat_digits_nonempty nat_digits_all
      digits_val_nat_digits)

lemma os_OpenFile_absent:
  "faults w = [] \<Longrightarrow> files w fname = None \<Longrightarrow> os_OpenFile fname False w = (Inl ErrNotExist, w)"
  by (simp add: os_OpenFile_def syscall_no_faults)

lemma ioutil_ReadFile_absent:
  "faults w = [] \<Longrightarrow> files w fname = None \<Longrightarrow> ioutil_ReadFile fname w = (Inl ErrNotExist, w)"
  by (simp add: ioutil_ReadFile_def syscall_no_faults)

lemma openOrCreateFile_absent:
  "faults w = [] \<Longrightarrow> files w fname = None \<Longrightarrow>
   openOrCreateFile fname w
     = (Inr (fresh_handle fname), w\<lparr>files := (files w)(fname \<mapsto> \<lparr>fdata = [], fstable = []\<rparr>)\<rparr>)"
  by (simp add: openOrCreateFile_def os_OpenFile_def syscall_no_faults fresh_handle_def)

lemma populateCache_absent:
  assumes "faults w = []" "files w (headerFname store) = None" "files w (sessionFname store) = None"
    "files w (senderSeqNumsFname store) = None" "files w (targetSeqNumsFname store) = None"
  shows "populateCache (store, w) = ((False, None), store, w)"
  using assms
  by (cases store)
    (simp add: populateCache_def os_OpenFile_absent ioutil_ReadFile_absent)

lemma setSession_no_faults:
  assumes "faults w = []" "sessionFile store = Some h" "\<not> hclosed h" "files w (hname h) = Some fl"
  shows "setSession (store, w) =
    (None, store\<lparr>sessionFile := Some (h\<lparr>hpos := length (nat_digits (CreationTime store))\<rparr>)\<rparr>,
     w\<lparr>files := (files w)(hname h \<mapsto>
          fl\<lparr>fdata := write_at 0 (nat_digits (CreationTime store)) (fdata fl),
             fstable := write_at 0 (nat_digits (CreationTime store)) (fdata fl)\<rparr>)\<rparr>)"
  using assms
  by (simp add: setSession_def file_Seek_def file_Write_def file_Sync_def checkValid_def
      syscall_no_faults MarshalText_def CreationTime_def)

lemma fmt_019d_one: "fmt_019d 1 = ''0000000000000000001''"
  by code_simp

lemma Refresh_fresh:
  assumes nf: "faults w = []"
    and closed: "bodyFile store = None" "headerFile store = None" "sessionFile store = None"
      "senderSeqNumsFile store = None" "targetSeqNumsFile store = None"
    and names: "distinct [bodyFname store, headerFname store, sessionFname store,
      senderSeqNumsFname store, targetSeqNumsFname store]"
    and absent: "files w (bodyFname store) = None" "files w (headerFname store) = None"
      "files w (sessionFname store) = None" "files w (senderSeqNumsFname store) = None"
      "files w (targetSeqNumsFname store) = None"
  shows "\<exists>store' w'. Refresh (store, w) = (None, store', w')
    \<and> wf_store store' \<and> is_open store' \<and> persisted [] store' w' \<and> faults w' = []
    \<and> offsets store' = offsets store \<and> sessionID store' = sessionID store
    \<and> bodyFname store' = bodyFname store \<and> headerFname store' = headerFname store
    \<and> sessionFname store' = sessionFname store
    \<and> senderSeqNumsFname store' = senderSeqNumsFname store
    \<and> targetSeqNumsFname store' = targetSeqNumsFname store
    \<and> NextSenderMsgSeqNum store' = 1 \<and> NextTargetMsgSeqNum store' = 1
    \<and> CreationTime store' = clock w (tick w)"
proof -
  let ?t = "clock w (tick w)"
  have um: "UnmarshalText (nat_digits ?t) = Some ?t"
    by (rule UnmarshalText_MarshalText) (simp add: MarshalText_def)
  have range: "- (10 ^ 18) < (1::int)" "(1::int) \<le> int_max"
    by (simp_all add: int_max_def)
  from names have ne: "bodyFname store \<noteq> headerFname store" "bodyFname store \<noteq> sessionFname store"
    "bodyFname store \<noteq> senderSeqNumsFname store" "bodyFname store \<noteq> targetSeqNumsFname store"
    "headerFname store \<noteq> sessionFname store" "headerFname store \<noteq> senderSeqNumsFname store"
    "headerFname store \<noteq> targetSeqNumsFname store" "sessionFname store \<noteq> senderSeqNumsFname store"
    "sessionFname store \<noteq> targetSeqNumsFname store"
    "senderSeqNumsFname store \<noteq> targetSeqNumsFname store"
    by simp_all
  note ne' = ne [symmetric]
  show ?thesis
    unfolding Refresh_def
    using nf closed absent ne ne' um range
    by (simp add: cache_Reset_def time_Now_def Close_nil populateCache_absent and_then_def
        openBody_def openHeader_def openSession_def openSenderSeqNums_def openTargetSeqNums_def
        openOrCreateFile_absent setSession_no_faults
        SetNextSenderMsgSeqNum_def SetNextTargetMsgSeqNum_def
        NextSenderMsgSeqNum_def NextTargetMsgSeqNum_def CreationTime_def
        cache_NextSenderMsgSeqNum_def cache_NextTargetMsgSeqNum_def cache_CreationTime_def
        cache_SetNextSenderMsgSeqNum_def cache_SetNextTargetMsgSeqNum_def
        setSeqNum_no_faults fresh_handle_def write_at_start
        wf_store_def handle_for_def is_open_def handle_open_def persisted_def contents_def
        index_of_def)
qed

lemma newFileStore_fresh:
  assumes nf: "faults w = []"
    and absent: "files w (store_path dirname sid ''body'') = None"
      "files w (store_path dirname sid ''header'') = None"
      "files w (store_path dirname sid ''session'') = None"
      "files w (store_path dirname sid ''senderseqnums'') = None"
      "files w (store_path dirname sid ''targetseqnums'') = None"
  shows "\<exists>store w'. newFileStore sid dirname w = (Inr store, w')
    \<and> wf_store store \<and> is_open store \<and> persisted [] store w' \<and> store_paths store dirname
    \<and> faults w' = [] \<and> sessionID store = sid \<and> offsets store = Map.empty
    \<and> NextSenderMsgSeqNum store = 1 \<and> NextTargetMsgSeqNum store = 1
    \<and> CreationTime store = clock w (tick w)"
proof -
  let ?s0 = "closed_store sid dirname"
  have "\<exists>store' w'. Refresh (?s0, w) = (None, store', w')
    \<and> wf_store store' \<and> is_open store' \<and> persisted [] store' w' \<and> faults w' = []
    \<and> offsets store' = offsets ?s0 \<and> sessionID store' = sessionID ?s0
    \<and> bodyFname store' = bodyFname ?s0 \<and> headerFname store' = headerFname ?s0
    \<and> sessionFname store' = sessionFname ?s0
    \<and> senderSeqNumsFname store' = senderSeqNumsFname ?s0
    \<and> targetSeqNumsFname store' = targetSeqNumsFname ?s0
    \<and> NextSenderMsgSeqNum store' = 1 \<and> NextTargetMsgSeqNum store' = 1
    \<and> CreationTime store' = clock w (tick w)"
    using absent store_path_distinct [of dirname sid]
    by (intro Refresh_fresh [OF nf]) (simp_all add: closed_store_def)
  then obtain store' w' where r: "Refresh (?s0, w) = (None, store', w')"
    and p: "wf_store store'" "is_open store'" "persisted [] store' w'" "faults w' = []"
      "offsets store' = offsets ?s0" "sessionID store' = sessionID ?s0"
      "bodyFname store' = bodyFname ?s0" "headerFname store' = headerFname ?s0"
      "sessionFname store' = sessionFname ?s0"
      "senderSeqNumsFname store' = senderSeqNumsFname ?s0"
      "targetSeqNumsFname store' = targetSeqNumsFname ?s0"
      "NextSenderMsgSeqNum store' = 1" "NextTargetMsgSeqNum store' = 1"
      "CreationTime store' = clock w (tick w)"
    by blast
  have sid: "sessionID ?s0 = sid"
    by (simp add: closed_store_def)
  have "newFileStore sid dirname w = (Inr store', w')"
    by (simp add: newFileStore_closed_store [OF nf] r)
  moreover have "store_paths store' dirname"
    using p(6-11) by (simp add: store_paths_def closed_store_fields sid)
  ultimately show ?thesis
    using p sid by (simp add: closed_store_fields)
qed

lemma index_of_snoc:
  "index_of (es @ [(s, off, sz)]) m = (index_of es m)(s \<mapsto> \<lparr>offset = off, size' = sz\<rparr>)"
  by (simp add: index_of_def index_entry_simp)

lemma agree_snoc:
  assumes "list_all (\<lambda>k. m k = index_of es Map.empty k) (map fst es)"
  shows "list_all (\<lambda>k. (m(s \<mapsto> v)) k = ((index_of es Map.empty)(s \<mapsto> v)) k) (map fst es @ [s])"
  using assms by (simp add: list_all_iff)

lemma SaveMessage_no_faults:
  assumes nf: "faults w = []"
    and b: "bodyFile store = Some b" "\<not> hclosed b" "hname b = bodyFname store"
      "files w (bodyFname store) = Some bf"
    and h: "headerFile store = Some h" "\<not> hclosed h" "hname h = headerFname store"
      "files w (headerFname store) = Some hf"
    and ne: "bodyFname store \<noteq> headerFname store"
  shows "SaveMessage seqNum msg (store, w) =
    (None,
     store\<lparr>offsets := (offsets store)(seqNum \<mapsto>
              \<lparr>offset = int (length (fdata bf)), size' = int (length msg)\<rparr>),
           bodyFile := Some (b\<lparr>hpos := length (fdata bf) + length msg\<rparr>),
           headerFile := Some (h\<lparr>hpos := length (fdata hf)
              + length (header_line seqNum (int (length (fdata bf))) (int (length msg)))\<rparr>)\<rparr>,
     w\<lparr>files := (files w)
          (headerFname store \<mapsto>
             hf\<lparr>fdata := fdata hf @ header_line seqNum (int (length (fdata bf))) (int (length msg)),
                fstable := fdata hf @ header_line seqNum (int (length (fdata bf))) (int (length msg))\<rparr>,
           bodyFname store \<mapsto> bf\<lparr>fdata := fdata bf @ msg, fstable := fdata bf @ msg\<rparr>)\<rparr>)"
  using assms ne [symmetric]
  by (simp add: SaveMessage_def file_Seek_def file_Write_def file_Sync_def checkValid_def
      syscall_no_faults write_at_end Let_def)
    (auto intro!: fileStore.equality world.equality simp add: fun_upd_twist)

lemma SaveMessage_preserves:
  assumes nf: "faults w = []" and wf: "wf_store store" and op: "is_open store"
    and inv: "persisted es store w" and seq: "go_int seqNum"
    and sz: "int (length (contents w (bodyFname store))) \<le> int_max" "int (length msg) \<le> int_max"
  shows "\<exists>store' w'. SaveMessage seqNum msg (store, w) = (None, store', w')
    \<and> wf_store store' \<and> is_open store'
    \<and> persisted (es @ [(seqNum, int (length (contents w (bodyFname store))), int (length msg))])
          store' w'
    \<and> faults w' = [] \<and> cache store' = cache store \<and> sessionID store' = sessionID store
    \<and> bodyFname store' = bodyFname store \<and> headerFname store' = headerFname store
    \<and> sessionFname store' = sessionFname store
    \<and> senderSeqNumsFname store' = senderSeqNumsFname store
    \<and> targetSeqNumsFname store' = targetSeqNumsFname store"
proof -
  from op obtain b h where b: "bodyFile store = Some b" "\<not> hclosed b"
    and h: "headerFile store = Some h" "\<not> hclosed h"
    by (auto simp add: is_open_def handle_open_def split: option.splits)
  from wf b h have n: "hname b = bodyFname store" "hname h = headerFname store"
    by (simp_all add: wf_store_def handle_for_def)
  from inv obtain bf hf where f: "files w (bodyFname store) = Some bf"
    "files w (headerFname store) = Some hf"
    by (auto simp add: persisted_def)
  from wf have ne: "bodyFname store \<noteq> headerFname store" "bodyFname store \<noteq> sessionFname store"
    "bodyFname store \<noteq> senderSeqNumsFname store" "bodyFname store \<noteq> targetSeqNumsFname store"
    "headerFname store \<noteq> sessionFname store" "headerFname store \<noteq> senderSeqNumsFname store"
    "headerFname store \<noteq> targetSeqNumsFname store"
    by (simp_all add: wf_store_def)
  note ne' = ne [symmetric]
  let ?e = "(seqNum, int (length (fdata bf)), int (length msg))"
  have len: "contents w (bodyFname store) = fdata bf"
    using f by (simp add: contents_def)
  have ve: "valid_entry ?e"
    using seq sz len by (simp add: valid_entry_def go_int_def int_min_def)
  from inv have agree: "list_all (\<lambda>k. offsets store k = index_of es Map.empty k) (map fst es)"
    by (simp add: persisted_def)
  note run = SaveMessage_no_faults [OF nf b n(1) f(1) h n(2) f(2) ne(1), of seqNum msg]
  show ?thesis
    unfolding run len
    using wf op inv b h n f ne ne' ve nf agree_snoc [OF agree, of seqNum]
    by (simp add: wf_store_def handle_for_def is_open_def handle_open_def persisted_def
        contents_def entry_line_simp index_of_snoc NextSenderMsgSeqNum_def
        NextTargetMsgSeqNum_def CreationTime_def split: option.splits)
qed

lemma SetNextSenderMsgSeqNum_preserves:
  assumes nf: "faults w = []" and wf: "wf_store store" and op: "is_open store"
    and inv: "persisted es store w" and range: "- (10 ^ 18) < n" "n \<le> int_max"
  shows "\<exists>store' w'. SetNextSenderMsgSeqNum n (store, w) = (None, store', w')
    \<and> wf_store store' \<and> is_open store' \<and> persisted es store' w' \<and> faults w' = []
    \<and> NextSenderMsgSeqNum store' = n \<and> NextTargetMsgSeqNum store' = NextTargetMsgSeqNum store
    \<and> CreationTime store' = CreationTime store \<and> offsets store' = offsets store
    \<and> sessionID store' = sessionID store
    \<and> bodyFname store' = bodyFname store \<and> headerFname store' = headerFname store
    \<and> sessionFname store' = sessionFname store
    \<and> senderSeqNumsFname store' = senderSeqNumsFname store
    \<and> targetSeqNumsFname store' = targetSeqNumsFname store"
proof -
  from op obtain h where h: "senderSeqNumsFile store = Some h" "\<not> hclosed h"
    by (auto simp add: is_open_def handle_open_def split: option.splits)
  from wf h have n: "hname h = senderSeqNumsFname store"
    by (simp add: wf_store_def handle_for_def)
  from inv obtain fl where f: "files w (senderSeqNumsFname store) = Some fl"
    "fdata fl = fmt_019d (NextSenderMsgSeqNum store)"
    "- (10 ^ 18) < NextSenderMsgSeqNum store" "NextSenderMsgSeqNum store \<le> int_max"
    by (auto simp add: persisted_def contents_def)
  have len: "length (fmt_019d n) = 19" "length (fdata fl) = 19"
    using range f by (simp_all add: fmt_019d_length int_max_def)
  from wf have ne: "senderSeqNumsFname store \<noteq> bodyFname store"
    "senderSeqNumsFname store \<noteq> headerFname store" "senderSeqNumsFname store \<noteq> sessionFname store"
    "senderSeqNumsFname store \<noteq> targetSeqNumsFname store"
    by (auto simp add: wf_store_def)
  note ne' = ne [symmetric]
  show ?thesis
    using wf op inv h n f(1) len ne ne' nf range
    by (simp add: SetNextSenderMsgSeqNum_def setSeqNum_no_faults write_at_start
        wf_store_def handle_for_def is_open_def handle_open_def persisted_def contents_def
        NextSenderMsgSeqNum_def NextTargetMsgSeqNum_def CreationTime_def
        cache_SetNextSenderMsgSeqNum_def cache_NextSenderMsgSeqNum_def
        cache_NextTargetMsgSeqNum_def cache_CreationTime_def split: option.splits)
qed

lemma SetNextTargetMsgSeqNum_preserves:
  assumes nf: "faults w = []" and wf: "wf_store store" and op: "is_open store"
    and inv: "persisted es store w" and range: "- (10 ^ 18) < n" "n \<le> int_max"
  shows "\<exists>store' w'. SetNextTargetMsgSeqNum n (store, w) = (None, store', w')
    \<and> wf_store store' \<and> is_open store' \<and> persisted es store' w' \<and> faults w' = []
    \<and> NextTargetMsgSeqNum store' = n \<and> NextSenderMsgSeqNum store' = NextSenderMsgSeqNum store
    \<and> CreationTime store' = CreationTime store \<and> offsets store' = offsets store
    \<and> sessionID store' = sessionID store
    \<and> bodyFname store' = bodyFname store \<and> headerFname store' = headerFname store
    \<and> sessionFname store' = sessionFname store
    \<and> senderSeqNumsFname store' = senderSeqNumsFname store
    \<and> targetSeqNumsFname store' = targetSeqNumsFname store"
proof -
  from op obtain h where h: "targetSeqNumsFile store = Some h" "\<not> hclosed h"
    by (auto simp add: is_open_def handle_open_def split: option.splits)
  from wf h have n: "hname h = targetSeqNumsFname store"
    by (simp add: wf_store_def handle_for_def)
  from inv obtain fl where f: "files w (targetSeqNumsFname store) = Some fl"
    "fdata fl = fmt_019d (NextTargetMsgSeqNum store)"
    "- (10 ^ 18) < NextTargetMsgSeqNum store" "NextTargetMsgSeqNum store \<le> int_max"
    by (auto simp add: persisted_def contents_def)
  have len: "length (fmt_019d n) = 19" "length (fdata fl) = 19"
    using range f by (simp_all add: fmt_019d_length int_max_def)
  from wf have ne: "targetSeqNumsFname store \<noteq> bodyFname store"
    "targetSeqNumsFname store \<noteq> headerFname store" "targetSeqNumsFname store \<noteq> sessionFname store"
    "targetSeqNumsFname store \<noteq> senderSeqNumsFname store"
    by (auto simp add: wf_store_def)
  note ne' = ne [symmetric]
  show ?thesis
    using wf op inv h n f(1) len ne ne' nf range
    by (simp add: SetNextTargetMsgSeqNum_def setSeqNum_no_faults write_at_start
        wf_store_def handle_for_def is_open_def handle_open_def persisted_def contents_def
        NextSenderMsgSeqNum_def NextTargetMsgSeqNum_def CreationTime_def
        cache_SetNextTargetMsgSeqNum_def cache_NextSenderMsgSeqNum_def
        cache_NextTargetMsgSeqNum_def cache_CreationTime_def split: option.splits)
qed

lemma IncrNextSenderMsgSeqNum_is_set:
  "IncrNextSenderMsgSeqNum (store, w)
     = SetNextSenderMsgSeqNum (wrap64 (NextSenderMsgSeqNum store + 1)) (store, w)"
  by (simp add: IncrNextSenderMsgSeqNum_def SetNextSenderMsgSeqNum_def Let_def
      cache_IncrNextSenderMsgSeqNum_def cache_SetNextSenderMsgSeqNum_def
      cache_NextSenderMsgSeqNum_def NextSenderMsgSeqNum_def)

lemma IncrNextTargetMsgSeqNum_is_set:
  "IncrNextTargetMsgSeqNum (store, w)
     = SetNextTargetMsgSeqNum (wrap64 (NextTargetMsgSeqNum store + 1)) (store, w)"
  by (simp add: IncrNextTargetMsgSeqNum_def SetNextTargetMsgSeqNum_def Let_def
      cache_IncrNextTargetMsgSeqNum_def cache_SetNextTargetMsgSeqNum_def
      cache_NextTargetMsgSeqNum_def NextTargetMsgSeqNum_def)


section \<open>The index only grows\<close>

text \<open>
  Whatever the system calls do, \<^verbatim>\<open>Refresh\<close> and \<^verbatim>\<open>Reset\<close> remove no entry of the index: the
  only writes to \<open>offsets\<close> are the stores of \<^verbatim>\<open>populateCache\<close> and \<^verbatim>\<open>SaveMessage\<close>.
\<close>

lemma and_then_keeps:
  assumes "keeps D (snd r)" "\<And>s. keeps D s \<Longrightarrow> keeps D (snd (k s))"
  shows "keeps D (snd (and_then r k))"
  using assms by (cases r; cases "fst r") (auto simp add: and_then_def)

lemma populateCache_loop_dom: "dom offs \<subseteq> dom (fst (populateCache_loop inp offs w))"
proof (induction inp offs w rule: populateCache_loop.induct)
  case (1 inp offs w)
  obtain failed w' where s: "syscall w = (failed, w')"
    by (cases "syscall w")
  show ?case
  proof (cases "failed \<or> Fscanf_header inp = None")
    case True
    with s show ?thesis
      by (subst populateCache_loop.simps) auto
  next
    case False
    then obtain seqNum off sz rest where f: "Fscanf_header inp = Some (seqNum, off, sz, rest)"
      by (cases "Fscanf_header inp") auto
    have "dom (offs(seqNum \<mapsto> \<lparr>offset = off, size' = sz\<rparr>))
        \<subseteq> dom (fst (populateCache_loop rest (offs(seqNum \<mapsto> \<lparr>offset = off, size' = sz\<rparr>)) w'))"
      by (rule 1 [of failed w' "(seqNum, off, sz, rest)" seqNum "(off, sz, rest)"
            off "(sz, rest)" sz rest])
        (use False s f in simp_all)
    then have "dom offs
        \<subseteq> dom (fst (populateCache_loop rest (offs(seqNum \<mapsto> \<lparr>offset = off, size' = sz\<rparr>)) w'))"
      by auto
    with False s f show ?thesis
      by (subst populateCache_loop.simps) simp
  qed
qed

lemma closeFile_keeps:
  "keeps D s \<Longrightarrow> keeps D (snd (closeBody s))"
  "keeps D s \<Longrightarrow> keeps D (snd (closeHeader s))"
  "keeps D s \<Longrightarrow> keeps D (snd (closeSession s))"
  "keeps D s \<Longrightarrow> keeps D (snd (closeSenderSeqNums s))"
  "keeps D s \<Longrightarrow> keeps D (snd (closeTargetSeqNums s))"
  by (cases s; simp add: keeps_def closeBody_def closeHeader_def closeSession_def
      closeSenderSeqNums_def closeTargetSeqNums_def split: prod.splits)+

lemma Close_keeps:
  assumes "keeps D s"
  shows "keeps D (snd (Close s))"
  unfolding Close_def
  by (intro and_then_keeps closeFile_keeps assms) (simp_all add: keeps_def split_beta)

lemma open_keeps:
  "keeps D s \<Longrightarrow> keeps D (snd (openBody s))"
  "keeps D s \<Longrightarrow> keeps D (snd (openHeader s))"
  "keeps D s \<Longrightarrow> keeps D (snd (openSession s))"
  "keeps D s \<Longrightarrow> keeps D (snd (openSenderSeqNums s))"
  "keeps D s \<Longrightarrow> keeps D (snd (openTargetSeqNums s))"
  by (cases s; simp add: keeps_def openBody_def openHeader_def openSession_def
      openSenderSeqNums_def openTargetSeqNums_def split: prod.splits sum.splits)+

lemma setSession_keeps: "keeps D s \<Longrightarrow> keeps D (snd (setSession s))"
  by (cases s) (simp add: keeps_def setSession_def split: prod.splits sum.splits option.splits)

lemma SetNext_keeps:
  "keeps D s \<Longrightarrow> keeps D (snd (SetNextSenderMsgSeqNum n s))"
  "keeps D s \<Longrightarrow> keeps D (snd (SetNextTargetMsgSeqNum n s))"
  by (cases s; simp add: keeps_def SetNextSenderMsgSeqNum_def SetNextTargetMsgSeqNum_def
      split: prod.splits)+

lemma populateCache_offsets_any:
  "offsets (fst (snd (populateCache (store, w)))) =
     (case fst (os_OpenFile (headerFname store) False w) of
        Inl e \<Rightarrow> offsets store
      | Inr f \<Rightarrow>
          fst (populateCache_loop
                 (contents (snd (os_OpenFile (headerFname store) False w)) (headerFname store))
                 (offsets store) (snd (os_OpenFile (headerFname store) False w))))"
  by (simp add: populateCache_def Let_def split_beta split: sum.splits)

lemma populateCache_keeps:
  assumes "keeps D s"
  shows "keeps D (snd (populateCache s))"
proof -
  obtain store w where s: "s = (store, w)"
    by (cases s)
  have "dom (offsets store) \<subseteq> dom (offsets (fst (snd (populateCache (store, w)))))"
    unfolding populateCache_offsets_any
    by (cases "fst (os_OpenFile (headerFname store) False w)")
      (simp_all add: populateCache_loop_dom)
  with assms s show ?thesis
    by (auto simp add: keeps_def)
qed

lemma removeStoreFile_keeps: "keeps D s \<Longrightarrow> keeps D (snd (removeStoreFile fname s))"
  by (cases s) (simp add: keeps_def removeStoreFile_def split: prod.splits)

lemma Refresh_keeps: "keeps D s \<Longrightarrow> keeps D (snd (Refresh s))"
proof -
  assume k: "keeps D s"
  obtain store w where s: "s = (store, w)"
    by (cases s)
  obtain c w1 where r: "cache_Reset (cache store) w = (c, w1)"
    by (cases "cache_Reset (cache store) w")
  have k1: "keeps D (store\<lparr>cache := c\<rparr>, w1)"
    using k s by (simp add: keeps_def)
  have rest: "keeps D (snd (case populateCache s' of
      ((creationTimePopulated, err), s1) \<Rightarrow>
        and_then (err, s1) (\<lambda>s.
        and_then (openBody s) (\<lambda>s.
        and_then (openHeader s) (\<lambda>s.
        and_then (openSession s) (\<lambda>s.
        and_then (openSenderSeqNums s) (\<lambda>s.
        and_then (openTargetSeqNums s) (\<lambda>s.
        and_then (if \<not> creationTimePopulated then setSession s else (None, s)) (\<lambda>s.
        (case SetNextSenderMsgSeqNum (NextSenderMsgSeqNum (fst s)) s of (err1, s) \<Rightarrow>
        (case SetNextTargetMsgSeqNum (NextTargetMsgSeqNum (fst s)) s of (err2, s) \<Rightarrow>
           (None, s))))))))))))" if "keeps D s'" for s'
    using populateCache_keeps [OF that]
    by (auto simp add: split_beta setSession_keeps intro!: and_then_keeps open_keeps SetNext_keeps)
  show ?thesis
    unfolding s Refresh_def
    by (simp add: r) (intro and_then_keeps Close_keeps k1 rest)
qed

lemma Reset_keeps: "keeps D s \<Longrightarrow> keeps D (snd (Reset s))"
proof -
  assume k: "keeps D s"
  obtain store w where s: "s = (store, w)"
    by (cases s)
  obtain c w1 where r: "cache_Reset (cache store) w = (c, w1)"
    by (cases "cache_Reset (cache store) w")
  have k1: "keeps D (store\<lparr>cache := c\<rparr>, w1)"
    using k s by (simp add: keeps_def)
  show ?thesis
    unfolding s Reset_def
    by (simp add: r) (intro and_then_keeps Close_keeps k1 removeStoreFile_keeps Refresh_keeps)
qed

lemma index_never_shrinks:
  "dom (offsets store) \<subseteq> dom (offsets (fst (snd (Refresh (store, w)))))"
  "dom (offsets store) \<subseteq> dom (offsets (fst (snd (Reset (store, w)))))"
  using Refresh_keeps [of "dom (offsets store)" "(store, w)"]
    Reset_keeps [of "dom (offsets store)" "(store, w)"]
  by (simp_all add: keeps_def)


text \<open>
  A message saved without a failure is read back unchanged by \<^verbatim>\<open>getMessage\<close> under the same
  sequence number.
\<close>

lemma save_then_get:
  assumes nf: "faults w = []"
    and b: "bodyFile store = Some b" "\<not> hclosed b" "hname b = bodyFname store"
      "files w (bodyFname store) = Some bf"
    and h: "headerFile store = Some h" "\<not> hclosed h" "hname h = headerFname store"
      "files w (headerFname store) = Some hf"
    and ne: "bodyFname store \<noteq> headerFname store"
  shows "fst (getMessage (fst (snd (SaveMessage seqNum msg (store, w)))) seqNum
                (snd (snd (SaveMessage seqNum msg (store, w)))))
         = (msg, True, None)"
  unfolding SaveMessage_no_faults [OF assms]
  using nf b(2,3) ne
  by (simp add: getMessage_def file_ReadAt_def checkValid_def syscall_no_faults)

text \<open>
  The newline of the format of \<^verbatim>\<open>Fscanf\<close> also matches the end of the input, so a last line
  that has its three numbers and no newline still scans as an entry.
\<close>

lemma last_line_without_newline: "Fscanf_header ''12,0,5'' = Some (12, 0, 5, [])"
  by code_simp

section \<open>The counter files\<close>




text \<open>
  C8: the four counter methods of the file store write the cache first and the counter file
  second: whatever the outcome of the seek, the write and the flush (for every schedule of
  failures, and for a closed store too), the cache holds the new value afterwards: the
  argument of \<^verbatim>\<open>set\<close>, the old value plus one (as a Go \<^verbatim>\<open>int\<close>) for \<^verbatim>\<open>incr\<close>.
\<close>

theorem cache_updated_before_write:
  "NextSenderMsgSeqNum (fst (snd (SetNextSenderMsgSeqNum n (store, w)))) = n
   \<and> NextTargetMsgSeqNum (fst (snd (SetNextTargetMsgSeqNum n (store, w)))) = n
   \<and> NextSenderMsgSeqNum (fst (snd (IncrNextSenderMsgSeqNum (store, w))))
       = wrap64 (NextSenderMsgSeqNum store + 1)
   \<and> NextTargetMsgSeqNum (fst (snd (IncrNextTargetMsgSeqNum (store, w))))
       = wrap64 (NextTargetMsgSeqNum store + 1)"
  by (simp add: SetNextSenderMsgSeqNum_def SetNextTargetMsgSeqNum_def
      IncrNextSenderMsgSeqNum_def IncrNextTargetMsgSeqNum_def
      NextSenderMsgSeqNum_def NextTargetMsgSeqNum_def
      cache_SetNextSenderMsgSeqNum_def cache_SetNextTargetMsgSeqNum_def
      cache_IncrNextSenderMsgSeqNum_def cache_IncrNextTargetMsgSeqNum_def
      cache_NextSenderMsgSeqNum_def cache_NextTargetMsgSeqNum_def Let_def
      split: prod.splits)

lemma demo_write_fails:
  "fst (SetNextSenderMsgSeqNum 7 (demo_store, demo_world [False, True]))
     = Some (ErrWrite ''d/S.senderseqnums'' ErrIO)
   \<and> contents (snd (snd (SetNextSenderMsgSeqNum 7 (demo_store, demo_world [False, True]))))
       ''d/S.senderseqnums'' = ''0000000000000000001''
   \<and> fst (IncrNextTargetMsgSeqNum (demo_store, demo_world [True]))
     = Some (ErrRewind ''d/S.targetseqnums'' ErrIO)
   \<and> NextTargetMsgSeqNum demo_store = 1"
  by code_simp

theorem cache_updated_before_write_witness:
  "fst (SetNextSenderMsgSeqNum 7 (demo_store, demo_world [False, True]))
     = Some (ErrWrite ''d/S.senderseqnums'' ErrIO)
   \<and> contents (snd (snd (SetNextSenderMsgSeqNum 7 (demo_store, demo_world [False, True]))))
       ''d/S.senderseqnums'' = ''0000000000000000001''
   \<and> NextSenderMsgSeqNum (fst (snd (SetNextSenderMsgSeqNum 7 (demo_store, demo_world [False, True]))))
       = 7
   \<and> fst (IncrNextTargetMsgSeqNum (demo_store, demo_world [True]))
     = Some (ErrRewind ''d/S.targetseqnums'' ErrIO)
   \<and> NextTargetMsgSeqNum (fst (snd (IncrNextTargetMsgSeqNum (demo_store, demo_world [True])))) = 2"
proof -
  have "wrap64 (1 + 1) = 2"
    by (simp add: wrap64_def)
  then show ?thesis
    using cache_updated_before_write [of 7 demo_store "demo_world [False, True]"]
      cache_updated_before_write [of 7 demo_store "demo_world [True]"]
      demo_write_fails
    by simp
qed

section \<open>Reading a range of messages\<close>




text \<open>
  C10: when \<^verbatim>\<open>GetMessages\<close> returns an error, the messages it returns are nil, whatever was
  read before; and \<^verbatim>\<open>getMessage\<close> reports \<open>found\<close> exactly when the sequence number has an
  index entry, so that a read of an indexed message that fails returns \<open>found = true\<close>, no
  bytes and the error.
\<close>

theorem GetMessages_error_is_nil:
  "(GetMessages store b e w = Some ((msgs, Some err), w') \<longrightarrow> msgs = [])
   \<and> (read_err store w k \<noteq> None \<longrightarrow> read_found store w k \<and> read_msg store w k = [])
   \<and> read_found store w k = (offsets store k \<noteq> None)"
proof -
  have "msgs = []" if "GetMessages store b e w = Some ((msgs, Some err), w')"
    using GetMessages_loop_error_nil [of store b e "[]" w "((msgs, Some err), w')"] that
    by (simp add: GetMessages_def)
  moreover have "read_found store w k \<and> read_msg store w k = []" if "read_err store w k \<noteq> None"
    using that getMessage_error [of store k w]
    by (auto simp add: read_err_def read_found_def read_msg_def)
  moreover have "read_found store w k = (offsets store k \<noteq> None)"
    by (simp add: read_found_def getMessage_found)
  ultimately show ?thesis
    by blast
qed

lemma demo_read_fails:
  "map_option (snd \<circ> fst) (GetMessages demo_store 1 3 (demo_world [False, True]))
     = Some (Some (ErrRead ''d/S.body'' ErrIO))
   \<and> read_err demo_store (demo_world [True]) 3 = Some (ErrRead ''d/S.body'' ErrIO)"
  by code_simp

theorem GetMessages_error_is_nil_witness:
  "map_option fst (GetMessages demo_store 1 3 (demo_world [False, True]))
     = Some ([], Some (ErrRead ''d/S.body'' ErrIO))
   \<and> read_found demo_store (demo_world [True]) 3
   \<and> read_msg demo_store (demo_world [True]) 3 = []
   \<and> read_err demo_store (demo_world [True]) 3 = Some (ErrRead ''d/S.body'' ErrIO)"
proof -
  obtain msgs w' where run: "GetMessages demo_store 1 3 (demo_world [False, True])
      = Some ((msgs, Some (ErrRead ''d/S.body'' ErrIO)), w')"
    using demo_read_fails by (cases "GetMessages demo_store 1 3 (demo_world [False, True])") auto
  have err: "read_err demo_store (demo_world [True]) 3 \<noteq> None"
    using demo_read_fails by simp
  from GetMessages_error_is_nil [of demo_store 1 3 "demo_world [False, True]" msgs
      "ErrRead ''d/S.body'' ErrIO" w' 3] run
  have "msgs = []"
    by simp
  moreover from GetMessages_error_is_nil [of demo_store 1 3 "demo_world [True]" msgs
      "ErrRead ''d/S.body'' ErrIO" w' 3] err
  have "read_found demo_store (demo_world [True]) 3 \<and> read_msg demo_store (demo_world [True]) 3 = []"
    by simp
  ultimately show ?thesis
    using run demo_read_fails by simp
qed

section \<open>Saving a message\<close>

text \<open>
  C5: a \<^verbatim>\<open>SaveMessage(seqNum, msg)\<close> that returns nil, on a well-formed store, has appended
  \<open>msg\<close> to the body file at the offset that was its end, has appended the line
  \<open>seqNum,offset,size\<close> to the header file, has set the index entry of \<open>seqNum\<close> to that
  offset and the length of \<open>msg\<close>, and has flushed both files (what is on stable storage is
  their whole content); the two files have not shrunk, and every other file is as it was.
\<close>

theorem SaveMessage_appends:
  assumes "wf_store store" "SaveMessage seqNum msg (store, w) = (None, store', w')"
  shows "contents w' (bodyFname store) = contents w (bodyFname store) @ msg
     \<and> contents w' (headerFname store) = contents w (headerFname store)
           @ header_line seqNum (int (length (contents w (bodyFname store)))) (int (length msg))
     \<and> offsets store' = (offsets store)(seqNum \<mapsto>
           \<lparr>offset = int (length (contents w (bodyFname store))), size' = int (length msg)\<rparr>)
     \<and> stable w' (bodyFname store) = contents w' (bodyFname store)
     \<and> stable w' (headerFname store) = contents w' (headerFname store)
     \<and> length (contents w (bodyFname store)) \<le> length (contents w' (bodyFname store))
     \<and> length (contents w (headerFname store)) \<le> length (contents w' (headerFname store))
     \<and> (\<forall>f. f \<noteq> bodyFname store \<and> f \<noteq> headerFname store \<longrightarrow> files w' f = files w f)"
proof -
  from assms(2) obtain off b1 w1 hoff h1 w2 h2 w3 b2 w4 w5 where
    s1: "file_Seek (bodyFile store) SEEK_END w = (Inr (off, b1), w1)" and
    s2: "file_Seek (headerFile store) SEEK_END w1 = (Inr (hoff, h1), w2)" and
    s3: "file_Write (Some h1) (header_line seqNum off (int (length msg))) w2 = (Inr h2, w3)" and
    s4: "file_Write (Some b1) msg w3 = (Inr b2, w4)" and
    s5: "file_Sync (Some b2) w4 = (None, w5)" and
    s6: "file_Sync (Some h2) w5 = (None, w')" and
    st: "store' = store\<lparr>offsets := (offsets store)(seqNum \<mapsto> \<lparr>offset = off, size' = int (length msg)\<rparr>),
                     bodyFile := Some b2, headerFile := Some h2\<rparr>"
    by (rule SaveMessage_ok)
  let ?B = "bodyFname store" and ?H = "headerFname store"
  have ne: "?B \<noteq> ?H"
    using assms(1) by (simp add: wf_store_def)
  from s1 obtain b bf where b: "bodyFile store = Some b" "files w (hname b) = Some bf"
    "files w1 = files w" "b1 = b\<lparr>hpos := length (fdata bf)\<rparr>" "off = int (length (fdata bf))"
    by (rule file_Seek_ok) simp
  have bn: "hname b = ?B"
    using assms(1) b(1) by (simp add: wf_store_def handle_for_def)
  from s2 obtain h hf where h: "headerFile store = Some h" "files w1 (hname h) = Some hf"
    "files w2 = files w1" "h1 = h\<lparr>hpos := length (fdata hf)\<rparr>"
    by (rule file_Seek_ok) simp
  have hn: "hname h = ?H"
    using assms(1) h(1) by (simp add: wf_store_def handle_for_def)
  let ?line = "header_line seqNum off (int (length msg))"
  from s3 h have w3: "files w3 = (files w)(?H \<mapsto> hf\<lparr>fdata := fdata hf @ ?line\<rparr>)"
    using b(3) hn by (auto elim!: file_Write_ok simp add: write_at_end)
  from s4 b w3 bn ne have w4: "files w4 = (files w)(?H \<mapsto> hf\<lparr>fdata := fdata hf @ ?line\<rparr>,
      ?B \<mapsto> bf\<lparr>fdata := fdata bf @ msg\<rparr>)" and b2: "hname b2 = ?B"
    by (auto elim!: file_Write_ok simp add: write_at_end)
  from s5 w4 b2 have w5: "files w5 = (files w)(?H \<mapsto> hf\<lparr>fdata := fdata hf @ ?line\<rparr>,
      ?B \<mapsto> bf\<lparr>fdata := fdata bf @ msg, fstable := fdata bf @ msg\<rparr>)"
    by (auto elim!: file_Sync_ok)
  have h2: "hname h2 = ?H"
    using s3 h hn by (auto elim!: file_Write_ok)
  from s6 w5 h2 ne have w': "files w' = (files w)(?H \<mapsto> hf\<lparr>fdata := fdata hf @ ?line, fstable := fdata hf @ ?line\<rparr>,
      ?B \<mapsto> bf\<lparr>fdata := fdata bf @ msg, fstable := fdata bf @ msg\<rparr>)"
    by (auto elim!: file_Sync_ok simp add: fun_upd_twist)
  have old: "files w ?B = Some bf" "files w ?H = Some hf"
    using b h bn hn by simp_all
  show ?thesis
    using w' old ne st b(5) by (simp add: contents_def stable_def)
qed

lemma demo_SaveMessage: "fst (SaveMessage 5 ''hello'' (demo_store, demo_world [])) = None"
  by code_simp

lemma demo_wf_store: "wf_store demo_store"
  by code_simp

theorem SaveMessage_appends_witness:
  "contents (snd (snd (SaveMessage 5 ''hello'' (demo_store, demo_world [])))) ''d/S.body'' = ''AChello''
   \<and> contents (snd (snd (SaveMessage 5 ''hello'' (demo_store, demo_world [])))) ''d/S.header''
       = ''1,0,1\<newline>3,1,1\<newline>5,2,5\<newline>''
   \<and> offsets (fst (snd (SaveMessage 5 ''hello'' (demo_store, demo_world [])))) 5
       = Some \<lparr>offset = 2, size' = 5\<rparr>
   \<and> stable (snd (snd (SaveMessage 5 ''hello'' (demo_store, demo_world [])))) ''d/S.body'' = ''AChello''
   \<and> files (snd (snd (SaveMessage 5 ''hello'' (demo_store, demo_world [])))) ''d/S.session''
       = files (demo_world []) ''d/S.session''"
proof -
  let ?r = "SaveMessage 5 ''hello'' (demo_store, demo_world [])"
  have run: "?r = (None, fst (snd ?r), snd (snd ?r))"
    using demo_SaveMessage by (simp add: prod_eq_iff)
  have names: "bodyFname demo_store = ''d/S.body''" "headerFname demo_store = ''d/S.header''"
    by (simp_all add: demo_store_def)
  have old: "contents (demo_world []) ''d/S.body'' = ''AC''"
    "contents (demo_world []) ''d/S.header'' = ''1,0,1\<newline>3,1,1\<newline>''"
    by (simp_all add: contents_def demo_world_def demo_files_def)
  have line: "header_line 5 2 5 = ''5,2,5\<newline>''"
    by code_simp
  from SaveMessage_appends [OF demo_wf_store run] show ?thesis
    unfolding names old by (simp add: line)
qed

section \<open>The index after \<^verbatim>\<open>populateCache\<close>\<close>



section \<open>Where the store departs from its documentation\<close>

text \<open>
  C1: \<^verbatim>\<open>Reset\<close> deletes the five files and refreshes, but nothing clears the index. After
  opening a store in an empty directory, saving message 1 (\<open>A\<close>) and message 3 (\<open>C\<close>) and a
  \<^verbatim>\<open>Reset\<close> that returns nil, both counters are 1, the creation time is a later reading of
  the clock and the body file is empty; but the index still holds both entries, and
  \<^verbatim>\<open>GetMessages(1, 3)\<close> returns a read error instead of no messages.
\<close>

theorem Reset_keeps_stale_index:
  "fst (Reset demo_saved) = None
   \<and> contents (snd (snd (Reset demo_saved))) ''d/S.body'' = []
   \<and> NextSenderMsgSeqNum (fst (snd (Reset demo_saved))) = 1
   \<and> NextTargetMsgSeqNum (fst (snd (Reset demo_saved))) = 1
   \<and> CreationTime (fst demo_saved) < CreationTime (fst (snd (Reset demo_saved)))
   \<and> offsets (fst (snd (Reset demo_saved))) 1 = Some \<lparr>offset = 0, size' = 1\<rparr>
   \<and> map_option fst (GetMessages (fst (snd (Reset demo_saved))) 1 3 (snd (snd (Reset demo_saved))))
       = Some ([], Some (ErrRead ''d/S.body'' ErrEOF))"
  by code_simp

text \<open>
  C2: \<^verbatim>\<open>Refresh\<close> stores the lines of the header file in the index it already has. After
  the \<^verbatim>\<open>Reset\<close> above and one more \<^verbatim>\<open>Refresh\<close>, both returning nil, the header file is
  empty and the index still has the entries of the sequence numbers 1 and 3.
\<close>

theorem Refresh_keeps_absent_entries:
  "fst (Reset demo_saved) = None
   \<and> fst (Refresh (snd (Reset demo_saved))) = None
   \<and> contents (snd (snd (Refresh (snd (Reset demo_saved))))) ''d/S.header'' = []
   \<and> offsets (fst (snd (Refresh (snd (Reset demo_saved))))) 1 = Some \<lparr>offset = 0, size' = 1\<rparr>
   \<and> offsets (fst (snd (Refresh (snd (Reset demo_saved))))) 3 = Some \<lparr>offset = 1, size' = 1\<rparr>"
  by code_simp

text \<open>
  C3: \<^verbatim>\<open>Refresh\<close> drops the results of the two calls that persist the counters. Opening a
  store in an empty directory where the twentieth system call, the write to the sender
  counter file, fails: \<^verbatim>\<open>newFileStore\<close> (whose only work after making the directory is
  \<^verbatim>\<open>Refresh\<close>) returns the store and no error, the cache says 1 and the counter file is
  empty. The same on the open example store: \<^verbatim>\<open>Refresh\<close> returns nil although the write to
  the counter file failed (the file is left rewound, at offset 0).
\<close>

theorem Refresh_drops_counter_error:
  "(case newFileStore ''S'' ''d'' (demo_fresh\<lparr>faults := replicate 19 False @ [True]\<rparr>) of
      (Inl e, w) \<Rightarrow> False
    | (Inr store, w) \<Rightarrow>
        NextSenderMsgSeqNum store = 1 \<and> contents w (senderSeqNumsFname store) = []
        \<and> faults w = [])
   \<and> fst (Refresh (demo_store, demo_world (replicate 19 False @ [True]))) = None
   \<and> senderSeqNumsFile (fst (snd (Refresh (demo_store, demo_world (replicate 19 False @ [True])))))
       = Some \<lparr>hname = ''d/S.senderseqnums'', hpos = 0, hclosed = False\<rparr>"
  by code_simp

section \<open>The round trip through close and reopen\<close>





end
